theory Spec2Isabelle
  imports Main "HOL-Library.Sublist"
begin

section \<open>Configuration constants\<close>

text \<open>The constants of \<^verbatim>\<open>scripts/1_preprocess_and_trim.c\<close> (lines 13-26).\<close>

definition UMI1_LEN :: nat where "UMI1_LEN = 7"
definition UMI2_LEN :: nat where "UMI2_LEN = 7"
definition MAX_LINE_LEN :: nat where "MAX_LINE_LEN = 1024"
definition MAX_SEQ_LEN :: nat where "MAX_SEQ_LEN = 512"

definition PRE_UMI1_TRA :: string where "PRE_UMI1_TRA = ''GACTCTGATGACGACGCACA''"
definition LINKER_FWD_TRA :: string where "LINKER_FWD_TRA = ''GTACACGCTGGATCCGACTTGTAGA''"
definition FLANK_TRA_SEQ :: string where "FLANK_TRA_SEQ = ''TACTCTGCTGATACCGATGC''"

definition PRE_UMI1_TRB :: string where "PRE_UMI1_TRB = ''GCATCGGTATCAGCAGAGTA''"
definition LINKER_REV_TRB :: string where "LINKER_REV_TRB = ''TCTACAAGTCGGATCCAGCGTGTAC''"
definition FLANK_TRB_SEQ :: string where "FLANK_TRB_SEQ = ''TGTGCGTCGTCATCAGAGTC''"

section \<open>C strings in character arrays\<close>

text \<open>
  A \<^verbatim>\<open>char\<close> array is the list of all its bytes, so that the bytes behind the
  terminator (left there by an earlier, longer record, or never initialised) are part
  of the model. The C string held by an array is the bytes before the first NUL.
  A read or write at an offset outside the array is the error \<open>OutOfBounds\<close>;
  so is a string function applied to an array that holds no NUL.
\<close>

type_synonym cbuf = "char list"

datatype error = OutOfBounds

definition NUL :: char where "NUL = CHR 0x00"

definition c_str :: "cbuf \<Rightarrow> string" where
  "c_str b = takeWhile (\<lambda>c. c \<noteq> NUL) b"

definition c_strlen :: "cbuf \<Rightarrow> nat" where
  "c_strlen b = length (c_str b)"

text \<open>Writing the string \<open>s\<close> and its terminator at the start of an array.\<close>

definition store_str :: "cbuf \<Rightarrow> string \<Rightarrow> cbuf" where
  "store_str old s = s @ NUL # drop (Suc (length s)) old"

definition byte_at :: "cbuf \<Rightarrow> nat \<Rightarrow> char option" where
  "byte_at b i = (if i < length b then Some (b ! i) else None)"

text \<open>
  \<^verbatim>\<open>strncmp(b + p, lit, strlen(lit)) == 0\<close> for a string literal \<open>lit\<close> (which holds
  no NUL before its end): bytes are compared one by one up to the first difference.
\<close>

fun strncmp_eq :: "cbuf \<Rightarrow> nat \<Rightarrow> string \<Rightarrow> bool option" where
  "strncmp_eq b p [] = Some True"
| "strncmp_eq b p (c # cs) =
     (case byte_at b p of
        None \<Rightarrow> None
      | Some x \<Rightarrow> if x \<noteq> c then Some False else strncmp_eq b (Suc p) cs)"

text \<open>
  \<^verbatim>\<open>strncpy(dst, b + p, n); dst[n] = '\0';\<close>: the string left in \<open>dst\<close>. The copy
  stops at a NUL (the rest of \<open>dst\<close> is padded with NUL).
\<close>

fun strncpy_str :: "cbuf \<Rightarrow> nat \<Rightarrow> nat \<Rightarrow> string option" where
  "strncpy_str b p 0 = Some []"
| "strncpy_str b p (Suc n) =
     (case byte_at b p of
        None \<Rightarrow> None
      | Some x \<Rightarrow> if x = NUL then Some [] else map_option ((#) x) (strncpy_str b (Suc p) n))"

text \<open>\<^verbatim>\<open>strcpy(dst, b + p)\<close>: the string left in \<open>dst\<close>.\<close>

definition strcpy_str :: "cbuf \<Rightarrow> nat \<Rightarrow> string option" where
  "strcpy_str b p = (if NUL \<in> set (drop p b) then Some (c_str (drop p b)) else None)"

section \<open>Sequence utilities\<close>

text \<open>The \<^verbatim>\<open>switch\<close> of \<^verbatim>\<open>reverse_complement\<close> (lines 315-322).\<close>

definition complement :: "char \<Rightarrow> char" where
  "complement c =
     (if c = CHR ''A'' then CHR ''T''
      else if c = CHR ''T'' then CHR ''A''
      else if c = CHR ''C'' then CHR ''G''
      else if c = CHR ''G'' then CHR ''C''
      else if c = CHR ''N'' then CHR ''N''
      else CHR ''N'')"

text \<open>The loop of \<^verbatim>\<open>reverse_complement\<close>: \<open>rc_seq[i]\<close> for \<open>i = 0, ..., len - 1\<close>.\<close>

definition rc_string :: "string \<Rightarrow> string" where
  "rc_string s = map (\<lambda>i. complement (s ! (length s - 1 - i))) [0..<length s]"

text \<open>
  \<^verbatim>\<open>reverse_complement(seq, rc_seq)\<close>: the new contents of the array \<open>rc_seq\<close>,
  the loop's bytes followed by \<^verbatim>\<open>rc_seq[len] = '\0'\<close>.
\<close>

definition reverse_complement :: "cbuf \<Rightarrow> cbuf \<Rightarrow> cbuf" where
  "reverse_complement seq rc_seq = store_str rc_seq (rc_string (c_str seq))"

section \<open>Motif matcher\<close>

text \<open>
  \<^verbatim>\<open>find_pattern\<close> is \<^verbatim>\<open>strstr\<close>: the offset of the first occurrence of the
  pattern in the string, \<open>None\<close> for the null pointer.
\<close>

fun find_pattern :: "string \<Rightarrow> string \<Rightarrow> nat option" where
  "find_pattern [] pattern = (if pattern = [] then Some 0 else None)"
| "find_pattern (c # cs) pattern =
     (if prefix pattern (c # cs) then Some 0
      else map_option Suc (find_pattern cs pattern))"

section \<open>Motif extractor\<close>

text \<open>
  The output parameters \<^verbatim>\<open>umi1\<close>, \<^verbatim>\<open>umi2\<close>, \<^verbatim>\<open>trimmed_seq\<close> (the strings
  they hold) and \<^verbatim>\<open>*found_rc\<close>.
\<close>

record outs =
  umi1 :: string
  umi2 :: string
  trimmed_seq :: string
  found_rc :: bool

text \<open>
  The second half of \<^verbatim>\<open>extract_umi_and_trim\<close> (lines 372-415), run once
  \<^verbatim>\<open>match_pos\<close> is not null: \<open>search_seq\<close> is the array that was searched,
  \<open>m\<close> the offset \<^verbatim>\<open>match_pos - search_seq\<close>, \<open>sequence\<close> the caller's array
  and \<open>out0\<close> the output parameters so far.
\<close>

definition extract_fields ::
  "cbuf \<Rightarrow> cbuf \<Rightarrow> nat \<Rightarrow> string \<Rightarrow> string \<Rightarrow> string \<Rightarrow> outs \<Rightarrow> error + (int \<times> outs)" where
  "extract_fields sequence search_seq m pre_umi linker flank out0 =
     (let pos1 = m + length pre_umi in
      case strncpy_str search_seq pos1 UMI1_LEN of
        None \<Rightarrow> Inl OutOfBounds
      | Some u1 \<Rightarrow>
         let out1 = out0\<lparr>umi1 := u1\<rparr>;
             pos2 = pos1 + UMI1_LEN
         in (case strncmp_eq search_seq pos2 linker of
               None \<Rightarrow> Inl OutOfBounds
             | Some False \<Rightarrow> Inr (0, out1)
             | Some True \<Rightarrow>
                let pos3 = pos2 + length linker in
                (case strncpy_str search_seq pos3 UMI2_LEN of
                   None \<Rightarrow> Inl OutOfBounds
                 | Some u2 \<Rightarrow>
                    let out2 = out1\<lparr>umi2 := u2\<rparr>;
                        pos4 = pos3 + UMI2_LEN
                    in (case strncmp_eq search_seq pos4 flank of
                          None \<Rightarrow> Inl OutOfBounds
                        | Some False \<Rightarrow> Inr (0, out2)
                        | Some True \<Rightarrow>
                           let pos5 = pos4 + length flank in
                           (case byte_at search_seq pos5 of
                              None \<Rightarrow> Inl OutOfBounds
                            | Some c \<Rightarrow>
                               if c \<noteq> CHR ''A'' \<and> c \<noteq> CHR ''T'' then Inr (0, out2)
                               else
                                 let pos = Suc pos5 in
                                 if found_rc out2 then
                                   let pattern_start = int (c_strlen sequence) - int pos
                                   in if pattern_start < 0 then Inl OutOfBounds
                                      else Inr (1, out2\<lparr>trimmed_seq :=
                                             take (nat pattern_start) (c_str sequence)\<rparr>)
                                 else
                                   (case strcpy_str sequence pos of
                                      None \<Rightarrow> Inl OutOfBounds
                                    | Some t \<Rightarrow> Inr (1, out2\<lparr>trimmed_seq := t\<rparr>)))))))"

text \<open>
  \<^verbatim>\<open>extract_umi_and_trim\<close> (lines 346-416). \<open>sequence\<close> is the caller's array,
  \<open>rc_stack\<close> the bytes the local array \<^verbatim>\<open>rc_sequence\<close> holds on entry,
  \<open>out\<close> the output parameters on entry. The result is the return value with the
  output parameters on exit. \<^verbatim>\<open>snprintf\<close> cuts the pattern at 255 bytes; a
  negative \<^verbatim>\<open>pattern_start\<close> makes \<^verbatim>\<open>strncpy\<close> write far beyond
  \<^verbatim>\<open>trimmed_seq\<close>, and a read of 512 bytes or more does not fit
  \<^verbatim>\<open>rc_sequence\<close>.
\<close>

definition extract_umi_and_trim ::
  "cbuf \<Rightarrow> string \<Rightarrow> string \<Rightarrow> string \<Rightarrow> cbuf \<Rightarrow> outs \<Rightarrow> error + (int \<times> outs)" where
  "extract_umi_and_trim sequence pre_umi linker flank rc_stack out =
     (if NUL \<notin> set sequence then Inl OutOfBounds
      else
        let pattern = take 255 pre_umi;
            fwd = find_pattern (c_str sequence) pattern
        in if fwd = None \<and> MAX_SEQ_LEN \<le> c_strlen sequence then Inl OutOfBounds
           else
             let rc_sequence = (if fwd = None then reverse_complement sequence rc_stack
                                else rc_stack);
                 search_seq = (if fwd = None then rc_sequence else sequence);
                 match_pos = (if fwd = None then find_pattern (c_str search_seq) pattern
                              else fwd);
                 out0 = out\<lparr>found_rc := (fwd = None \<and> match_pos \<noteq> None)\<rparr>
             in case match_pos of
                  None \<Rightarrow> Inr (0, out0)
                | Some m \<Rightarrow> extract_fields sequence search_seq m pre_umi linker flank out0)"

section \<open>Reading a record line\<close>

text \<open>
  One field of \<^verbatim>\<open>read_fastq_record\<close> (lines 328-337): \<^verbatim>\<open>gzgets\<close> stores at
  most \<open>len - 1\<close> bytes of the line (its newline included) and a terminator at the
  start of the array and leaves the other bytes as they were; then the byte at
  \<^verbatim>\<open>strcspn(buf, "\n")\<close> is set to NUL.
\<close>

definition gzgets :: "nat \<Rightarrow> cbuf \<Rightarrow> string \<Rightarrow> cbuf" where
  "gzgets len buf line = store_str buf (take (len - 1) (line @ [CHR 0x0A]))"

definition strip_newline :: "cbuf \<Rightarrow> cbuf" where
  "strip_newline buf = buf[length (takeWhile (\<lambda>c. c \<noteq> CHR 0x0A) (c_str buf)) := NUL]"

definition read_line :: "nat \<Rightarrow> cbuf \<Rightarrow> string \<Rightarrow> cbuf" where
  "read_line len buf line = strip_newline (gzgets len buf line)"

section \<open>Pair classifier and record router\<close>

text \<open>\<^verbatim>\<open>fastq_record_t\<close>: the four arrays of a record.\<close>

record fastq_record_t =
  header :: cbuf
  sequence :: cbuf
  plus_line :: cbuf
  quality :: cbuf

definition terminated_record :: "fastq_record_t \<Rightarrow> bool" where
  "terminated_record r =
     (NUL \<in> set (header r) \<and> NUL \<in> set (sequence r) \<and>
      NUL \<in> set (plus_line r) \<and> NUL \<in> set (quality r))"

text \<open>The four lines one \<^verbatim>\<open>gzprintf\<close> call writes to an output file.\<close>

type_synonym fastq_text = "string \<times> string \<times> string \<times> string"

datatype assay = TRA | TRB

text \<open>
  The state of the processing loop of \<^verbatim>\<open>main\<close>: the counters of \<^verbatim>\<open>progress_t\<close>,
  the records written so far to the four output files, and the arrays \<^verbatim>\<open>umi1\<close>,
  \<^verbatim>\<open>umi2\<close>, \<^verbatim>\<open>trimmed_seq\<close>, \<^verbatim>\<open>trimmed_qual\<close> declared before the loop.
  \<open>extractor_calls\<close> is not in the source: it logs each call of
  \<^verbatim>\<open>extract_umi_and_trim\<close> that returned.
\<close>

record main_state =
  processed_pairs :: int
  tra_pairs :: int
  trb_pairs :: int
  tra_r1_out_fp :: "fastq_text list"
  tra_r2_out_fp :: "fastq_text list"
  trb_r1_out_fp :: "fastq_text list"
  trb_r2_out_fp :: "fastq_text list"
  bufs :: outs
  trimmed_qual :: string
  extractor_calls :: "assay list"

text \<open>
  \<^verbatim>\<open>snprintf(hdr, MAX_LINE_LEN, "%s UMI:TRA:%s_%s%s", header, umi1, umi2,
  found_rc ? ":RC" : "")\<close> (lines 182-185, 216-219).
\<close>

definition header_mod :: "cbuf \<Rightarrow> string \<Rightarrow> outs \<Rightarrow> string" where
  "header_mod hdr name out =
     take (MAX_LINE_LEN - 1)
       (c_str hdr @ '' UMI:'' @ name @ '':'' @ umi1 out @ ''_'' @ umi2 out @
        (if found_rc out then '':RC'' else []))"

text \<open>
  The quality slice (lines 187-195, and again 221-229): the string left in
  \<^verbatim>\<open>trimmed_qual\<close>, computed from the lengths of the read and of the trimmed
  sequence.
\<close>

definition trim_quality :: "cbuf \<Rightarrow> cbuf \<Rightarrow> string \<Rightarrow> bool \<Rightarrow> error + string" where
  "trim_quality seq qual trimmed rc =
     (let trim_pos = int (c_strlen seq) - int (length trimmed) in
      if rc then
        (let trim_pos = int (length trimmed) in
         case strncpy_str qual 0 (nat trim_pos) of
           None \<Rightarrow> Inl OutOfBounds
         | Some q \<Rightarrow> Inr q)
      else if trim_pos < 0 then Inl OutOfBounds
      else (case strcpy_str qual (nat trim_pos) of
              None \<Rightarrow> Inl OutOfBounds
            | Some q \<Rightarrow> Inr q))"

text \<open>
  One iteration of the loop of \<^verbatim>\<open>main\<close> after both records were read
  (lines 169-240). \<open>stack1\<close> and \<open>stack2\<close> are the bytes found in the extractor's
  local array at its first and second call. \<^verbatim>\<open>read_fastq_record\<close> leaves a
  terminated string in each of the eight arrays; the step is undefined otherwise.
  \<^verbatim>\<open>update_progress\<close> only prints and is left out.
\<close>

definition process_pair ::
  "cbuf \<Rightarrow> cbuf \<Rightarrow> main_state \<Rightarrow> fastq_record_t \<Rightarrow> fastq_record_t \<Rightarrow> error + main_state" where
  "process_pair stack1 stack2 st r1_record r2_record =
     (if \<not> terminated_record r1_record \<or> \<not> terminated_record r2_record then Inl OutOfBounds
      else
        let st1 = st\<lparr>processed_pairs := processed_pairs st + 1\<rparr> in
        case extract_umi_and_trim (sequence r1_record) PRE_UMI1_TRA LINKER_FWD_TRA
               FLANK_TRA_SEQ stack1 ((bufs st1)\<lparr>found_rc := False\<rparr>) of
          Inl e \<Rightarrow> Inl e
        | Inr (ret1, out1) \<Rightarrow>
           let st2 = st1\<lparr>bufs := out1, extractor_calls := extractor_calls st1 @ [TRA]\<rparr> in
           if ret1 \<noteq> 0 then
             let r1_header_mod = header_mod (header r1_record) ''TRA'' out1;
                 r2_header_mod = header_mod (header r2_record) ''TRA'' out1
             in (case trim_quality (sequence r1_record) (quality r1_record)
                        (trimmed_seq out1) (found_rc out1) of
                   Inl e \<Rightarrow> Inl e
                 | Inr tq \<Rightarrow>
                    let st3 = st2\<lparr>trimmed_qual := tq\<rparr> in
                    if 0 < length (trimmed_seq out1) \<and> 0 < c_strlen (sequence r2_record) then
                      Inr (st3\<lparr>tra_r1_out_fp := tra_r1_out_fp st3 @
                                  [(r1_header_mod, trimmed_seq out1, c_str (plus_line r1_record), tq)],
                                tra_r2_out_fp := tra_r2_out_fp st3 @
                                  [(r2_header_mod, c_str (sequence r2_record),
                                    c_str (plus_line r2_record), c_str (quality r2_record))],
                                tra_pairs := tra_pairs st3 + 1\<rparr>)
                    else Inr st3)
           else
             (case extract_umi_and_trim (sequence r2_record) PRE_UMI1_TRB LINKER_REV_TRB
                     FLANK_TRB_SEQ stack2 (out1\<lparr>found_rc := False\<rparr>) of
                Inl e \<Rightarrow> Inl e
              | Inr (ret2, out2) \<Rightarrow>
                 let st4 = st2\<lparr>bufs := out2, extractor_calls := extractor_calls st2 @ [TRB]\<rparr> in
                 if ret2 \<noteq> 0 then
                   let r1_header_mod = header_mod (header r1_record) ''TRB'' out2;
                       r2_header_mod = header_mod (header r2_record) ''TRB'' out2
                   in (case trim_quality (sequence r2_record) (quality r2_record)
                              (trimmed_seq out2) (found_rc out2) of
                         Inl e \<Rightarrow> Inl e
                       | Inr tq \<Rightarrow>
                          let st5 = st4\<lparr>trimmed_qual := tq\<rparr> in
                          if 0 < c_strlen (sequence r1_record) \<and> 0 < length (trimmed_seq out2) then
                            Inr (st5\<lparr>trb_r1_out_fp := trb_r1_out_fp st5 @
                                        [(r1_header_mod, c_str (sequence r1_record),
                                          c_str (plus_line r1_record), c_str (quality r1_record))],
                                      trb_r2_out_fp := trb_r2_out_fp st5 @
                                        [(r2_header_mod, trimmed_seq out2,
                                          c_str (plus_line r2_record), tq)],
                                      trb_pairs := trb_pairs st5 + 1\<rparr>)
                          else Inr st5)
                 else Inr st4))"

section \<open>The composite motif, as the specification words it\<close>

text \<open>
  These definitions follow the specification (sections 4.2 and 4.3), not the code;
  the theorems below compare the code with them. \<open>x\<close> is the string that was
  searched and \<open>m\<close> the offset of the anchor in it.
\<close>

definition umi1_start :: "nat \<Rightarrow> string \<Rightarrow> nat" where
  "umi1_start m pre_umi = m + length pre_umi"

definition linker_start :: "nat \<Rightarrow> string \<Rightarrow> nat" where
  "linker_start m pre_umi = umi1_start m pre_umi + UMI1_LEN"

definition umi2_start :: "nat \<Rightarrow> string \<Rightarrow> string \<Rightarrow> nat" where
  "umi2_start m pre_umi linker = linker_start m pre_umi + length linker"

definition flank_start :: "nat \<Rightarrow> string \<Rightarrow> string \<Rightarrow> nat" where
  "flank_start m pre_umi linker = umi2_start m pre_umi linker + UMI2_LEN"

definition terminal_pos :: "nat \<Rightarrow> string \<Rightarrow> string \<Rightarrow> string \<Rightarrow> nat" where
  "terminal_pos m pre_umi linker flank = flank_start m pre_umi linker + length flank"

text \<open>The motif end boundary: the position just after the terminal base.\<close>

definition motif_end :: "nat \<Rightarrow> string \<Rightarrow> string \<Rightarrow> string \<Rightarrow> nat" where
  "motif_end m pre_umi linker flank = Suc (terminal_pos m pre_umi linker flank)"

text \<open>Linker, flank and terminal base are all present in \<open>x\<close> behind the anchor at \<open>m\<close>.\<close>

definition motif_validated :: "string \<Rightarrow> nat \<Rightarrow> string \<Rightarrow> string \<Rightarrow> string \<Rightarrow> bool" where
  "motif_validated x m pre_umi linker flank =
     (prefix linker (drop (linker_start m pre_umi) x) \<and>
      prefix flank (drop (flank_start m pre_umi linker) x) \<and>
      terminal_pos m pre_umi linker flank < length x \<and>
      x ! terminal_pos m pre_umi linker flank \<in> {CHR ''A'', CHR ''T''})"

text \<open>
  The three ways the continuation behind the anchor can be wrong: each names a field
  that starts inside \<open>x\<close> and differs from what the motif asks there.
\<close>

definition wrong_linker :: "string \<Rightarrow> nat \<Rightarrow> string \<Rightarrow> string \<Rightarrow> bool" where
  "wrong_linker x m pre_umi linker =
     (linker_start m pre_umi \<le> length x \<and> \<not> prefix linker (drop (linker_start m pre_umi) x))"

definition wrong_flank :: "string \<Rightarrow> nat \<Rightarrow> string \<Rightarrow> string \<Rightarrow> string \<Rightarrow> bool" where
  "wrong_flank x m pre_umi linker flank =
     (flank_start m pre_umi linker \<le> length x \<and>
      \<not> prefix flank (drop (flank_start m pre_umi linker) x))"

definition wrong_terminal :: "string \<Rightarrow> nat \<Rightarrow> string \<Rightarrow> string \<Rightarrow> string \<Rightarrow> bool" where
  "wrong_terminal x m pre_umi linker flank =
     (terminal_pos m pre_umi linker flank \<le> length x \<and>
      \<not> (terminal_pos m pre_umi linker flank < length x \<and>
         x ! terminal_pos m pre_umi linker flank \<in> {CHR ''A'', CHR ''T''}))"

text \<open>
  \<open>locate\<close> of the specification: the anchor's offset and whether it was found in
  the reverse complement, which is searched only when the forward search fails.
\<close>

definition spec_locate :: "string \<Rightarrow> string \<Rightarrow> (nat \<times> bool) option" where
  "spec_locate s anchor =
     (case find_pattern s anchor of
        Some m \<Rightarrow> Some (m, False)
      | None \<Rightarrow> map_option (\<lambda>m. (m, True)) (find_pattern (rc_string s) anchor))"

definition searched :: "string \<Rightarrow> bool \<Rightarrow> string" where
  "searched s rc = (if rc then rc_string s else s)"

text \<open>
  The slice of the original coordinates that is kept for a motif end boundary \<open>b\<close>
  of the searched string: the suffix from \<open>b\<close> (forward), the prefix of length
  \<open>length x - b\<close> (reverse complement).
\<close>

definition spec_slice :: "string \<Rightarrow> nat \<Rightarrow> bool \<Rightarrow> string" where
  "spec_slice x b rc = (if rc then take (length x - b) x else drop b x)"

text \<open>
  What the model asks of the string literals passed to the extractor: the anchor
  fits \<^verbatim>\<open>pattern[256]\<close>, and no literal holds a NUL.
\<close>

definition literal_ok :: "string \<Rightarrow> string \<Rightarrow> string \<Rightarrow> bool" where
  "literal_ok pre_umi linker flank =
     (length pre_umi \<le> 255 \<and> NUL \<notin> set pre_umi \<and> NUL \<notin> set linker \<and>
      NUL \<notin> set flank)"

section \<open>Example reads and records\<close>

text \<open>The composite motif of the specification's scenarios, and empty output parameters.\<close>

definition composite :: "string \<Rightarrow> string \<Rightarrow> string \<Rightarrow> string \<Rightarrow> string \<Rightarrow> string \<Rightarrow> string" where
  "composite pre_umi u1 linker u2 flank t = pre_umi @ u1 @ linker @ u2 @ flank @ t"

definition tra_composite :: string where
  "tra_composite =
     composite PRE_UMI1_TRA ''AAAAAAA'' LINKER_FWD_TRA ''TTTTTTT'' FLANK_TRA_SEQ ''A''"

definition no_outs :: outs where
  "no_outs = \<lparr>umi1 = [], umi2 = [], trimmed_seq = [], found_rc = False\<rparr>"

text \<open>
  A read that holds the composite in forward orientation, and one that holds its
  reverse complement.
\<close>

definition fwd_read :: cbuf where
  "fwd_read = tra_composite @ ''GGGCCC'' @ [NUL]"

definition rc_read :: cbuf where
  "rc_read = ''CC'' @ rc_string tra_composite @ ''GGGCCC'' @ [NUL]"

text \<open>
  Further reads: the array of read 1 after a long record and then a record cut
  inside UMI1 were read into it; a read with a second anchor before the composite;
  a read with the anchor before the reverse complement of the composite; a read
  whose linker has one character changed; a read without the anchor.
\<close>

definition stale_read :: cbuf where
  "stale_read =
     read_line MAX_SEQ_LEN
       (read_line MAX_SEQ_LEN (replicate MAX_SEQ_LEN NUL) (tra_composite @ ''GGGCCC''))
       (PRE_UMI1_TRA @ ''AAA'')"

definition two_anchors_read :: cbuf where
  "two_anchors_read = PRE_UMI1_TRA @ tra_composite @ [NUL]"

definition anchor_before_rc_read :: cbuf where
  "anchor_before_rc_read = PRE_UMI1_TRA @ ''AAAAAAAC'' @ rc_string tra_composite @ [NUL]"

definition bad_linker_read :: cbuf where
  "bad_linker_read =
     composite PRE_UMI1_TRA ''AAAAAAA'' ''CTACACGCTGGATCCGACTTGTAGA'' ''TTTTTTT''
       FLANK_TRA_SEQ ''A'' @ ''GGGCCC'' @ [NUL]"

definition no_anchor_read :: cbuf where
  "no_anchor_read = ''ACGTACGTACGT'' @ [NUL]"

text \<open>
  Records for the pair classifier: arrays that end at their terminator, the state
  before the first pair, a TRB composite, and reads with the composite followed by
  further bases, by nothing, or absent.
\<close>

definition mk_record :: "string \<Rightarrow> string \<Rightarrow> string \<Rightarrow> string \<Rightarrow> fastq_record_t" where
  "mk_record h s p q =
     \<lparr>header = h @ [NUL], sequence = s @ [NUL], plus_line = p @ [NUL], quality = q @ [NUL]\<rparr>"

definition init_state :: main_state where
  "init_state =
     \<lparr>processed_pairs = 0, tra_pairs = 0, trb_pairs = 0,
      tra_r1_out_fp = [], tra_r2_out_fp = [], trb_r1_out_fp = [], trb_r2_out_fp = [],
      bufs = no_outs, trimmed_qual = [], extractor_calls = []\<rparr>"

definition trb_composite :: string where
  "trb_composite =
     composite PRE_UMI1_TRB ''CCCCCCC'' LINKER_REV_TRB ''GGGGGGG'' FLANK_TRB_SEQ ''T''"

definition tra_fwd_record :: fastq_record_t where
  "tra_fwd_record =
     mk_record ''@a/1'' (tra_composite @ ''GGGCCC'') ''+'' (replicate 80 CHR ''F'' @ ''ABCDEF'')"

definition tra_rc_record :: fastq_record_t where
  "tra_rc_record =
     mk_record ''@b/1'' (''CC'' @ rc_string tra_composite @ ''GGGCCC'') ''+''
       (''AB'' @ replicate 86 CHR ''F'')"

definition trb_fwd_record :: fastq_record_t where
  "trb_fwd_record =
     mk_record ''@c/2'' (trb_composite @ ''ACGT'') ''+'' (replicate 80 CHR ''F'' @ ''WXYZ'')"

definition plain_record :: fastq_record_t where
  "plain_record = mk_record ''@p'' ''ACGTACGT'' ''+'' ''IIIIIIII''"

definition tra_only_record :: fastq_record_t where
  "tra_only_record = mk_record ''@d/1'' tra_composite ''+'' (replicate 80 CHR ''F'')"

definition trb_only_record :: fastq_record_t where
  "trb_only_record = mk_record ''@e/2'' trb_composite ''+'' (replicate 80 CHR ''F'')"

text \<open>
  An output file after a step: the records it held before, followed by records with
  a non-empty sequence line.
\<close>

definition emitted_nonempty :: "fastq_text list \<Rightarrow> fastq_text list \<Rightarrow> bool" where
  "emitted_nonempty before after =
     (take (length before) after = before \<and>
      list_all (\<lambda>x. fst (snd x) \<noteq> []) (drop (length before) after))"

text \<open>
  The array of read 1 after a long record and then a record cut inside UMI2 were read
  into it, and a record whose sequence is the read cut inside UMI1, with a quality
  string of the same length read into an array that held a longer one.
\<close>

definition umi2_cut_read :: cbuf where
  "umi2_cut_read =
     read_line MAX_SEQ_LEN
       (read_line MAX_SEQ_LEN (replicate MAX_SEQ_LEN NUL) (tra_composite @ ''GGGCCC''))
       (PRE_UMI1_TRA @ ''AAAAAAA'' @ LINKER_FWD_TRA @ ''TTT'')"

definition stale_record :: fastq_record_t where
  "stale_record =
     \<lparr>header = ''@t/1'' @ [NUL],
      sequence = stale_read,
      plus_line = ''+'' @ [NUL],
      quality =
        read_line MAX_SEQ_LEN
          (read_line MAX_SEQ_LEN (replicate MAX_SEQ_LEN NUL) (replicate 86 CHR ''F''))
          ''ABCDEFGHIJKLMNOPQRSTUVW''\<rparr>"

section \<open>C strings: facts\<close>

lemma c_str_no_NUL: "NUL \<notin> set (c_str b)"
  unfolding c_str_def by (induction b) auto

lemma c_str_append_NUL: "NUL \<notin> set s \<Longrightarrow> c_str (s @ NUL # r) = s"
  unfolding c_str_def by (induction s) auto

lemma cbuf_split: "NUL \<in> set b \<Longrightarrow> \<exists>r. b = c_str b @ NUL # r"
  unfolding c_str_def by (induction b) auto

lemma byte_at_str: "i < length s \<Longrightarrow> byte_at (s @ r) i = Some (s ! i)"
  by (simp add: byte_at_def nth_append)

lemma byte_at_terminator: "byte_at (s @ NUL # r) (length s) = Some NUL"
  by (simp add: byte_at_def)

lemma strncmp_eq_in_string:
  "NUL \<notin> set lit \<Longrightarrow> p \<le> length s \<Longrightarrow>
   strncmp_eq (s @ NUL # r) p lit = Some (prefix lit (drop p s))"
proof (induction lit arbitrary: p)
  case Nil
  then show ?case by simp
next
  case (Cons c cs)
  show ?case
  proof (cases "p = length s")
    case True
    with Cons.prems show ?thesis by (auto simp: byte_at_terminator)
  next
    case False
    with Cons.prems have lt: "p < length s" by simp
    then have d: "drop p s = s ! p # drop (Suc p) s" by (simp add: Cons_nth_drop_Suc)
    from lt Cons.prems Cons.IH [of "Suc p"] show ?thesis
      by (simp add: byte_at_str d)
  qed
qed

lemma strncpy_str_in_string:
  "NUL \<notin> set s \<Longrightarrow> p \<le> length s \<Longrightarrow>
   strncpy_str (s @ NUL # r) p n = Some (take n (drop p s))"
proof (induction n arbitrary: p)
  case 0
  then show ?case by simp
next
  case (Suc n)
  show ?case
  proof (cases "p = length s")
    case True
    then show ?thesis by (simp add: byte_at_terminator)
  next
    case False
    with Suc.prems have lt: "p < length s" by simp
    then have d: "drop p s = s ! p # drop (Suc p) s" by (simp add: Cons_nth_drop_Suc)
    from lt Suc.prems have "s ! p \<noteq> NUL" by (metis nth_mem)
    with lt Suc.prems Suc.IH [of "Suc p"] show ?thesis
      by (simp add: byte_at_str d)
  qed
qed

lemma strcpy_str_in_string:
  "NUL \<notin> set s \<Longrightarrow> p \<le> length s \<Longrightarrow> strcpy_str (s @ NUL # r) p = Some (drop p s)"
proof -
  assume a: "NUL \<notin> set s" "p \<le> length s"
  then have d: "drop p (s @ NUL # r) = drop p s @ NUL # r" by simp
  from a have "NUL \<notin> set (drop p s)" by (blast dest: in_set_dropD)
  then show ?thesis unfolding strcpy_str_def d by (simp add: c_str_append_NUL)
qed

lemma rc_string_rev: "rc_string s = map complement (rev s)"
  unfolding rc_string_def
  by (rule nth_equalityI) (simp_all add: rev_nth)

lemma rc_string_append: "rc_string (a @ b) = rc_string b @ rc_string a"
  by (simp add: rc_string_rev)

lemma length_rc_string: "length (rc_string s) = length s"
  by (simp add: rc_string_rev)

lemma complement_not_NUL: "complement c \<noteq> NUL"
  by (simp add: complement_def NUL_def)

lemma rc_string_no_NUL: "NUL \<notin> set (rc_string s)"
proof
  assume "NUL \<in> set (rc_string s)"
  then obtain c where "NUL = complement c" by (auto simp: rc_string_rev)
  then show False using complement_not_NUL [of c] by simp
qed

lemma complement_twice: "complement (complement c) = (if c \<in> set ''ACGTN'' then c else CHR ''N'')"
  by (simp add: complement_def)

lemma rc_string_twice: "rc_string (rc_string s) = map (\<lambda>c. if c \<in> set ''ACGTN'' then c else CHR ''N'') s"
  by (simp add: rc_string_rev rev_map complement_twice o_def)

lemma rc_string_involution: "set s \<subseteq> set ''ACGTN'' \<Longrightarrow> rc_string (rc_string s) = s"
  unfolding rc_string_twice by (rule map_idI) auto

lemma c_str_reverse_complement: "c_str (reverse_complement b old) = rc_string (c_str b)"
  by (simp add: reverse_complement_def store_str_def c_str_append_NUL rc_string_no_NUL)

lemma find_pattern_Some:
  "find_pattern s pat = Some m \<Longrightarrow> m \<le> length s \<and> prefix pat (drop m s)"
  by (induction s arbitrary: m) (auto split: if_splits)

lemma find_pattern_first:
  "find_pattern s pat = Some m \<Longrightarrow> k < m \<Longrightarrow> \<not> prefix pat (drop k s)"
proof (induction s arbitrary: m k)
  case Nil
  then show ?case by (simp split: if_splits)
next
  case (Cons c cs)
  then show ?case by (cases k) (auto split: if_splits)
qed

lemma find_pattern_None:
  "find_pattern s pat = None \<Longrightarrow> k \<le> length s \<Longrightarrow> \<not> prefix pat (drop k s)"
proof (induction s arbitrary: k)
  case Nil
  then show ?case by (simp split: if_splits)
next
  case (Cons c cs)
  then show ?case by (cases k) (auto split: if_splits)
qed

lemma find_pattern_intro:
  "prefix pat (drop m s) \<Longrightarrow> m \<le> length s \<Longrightarrow> \<forall>k<m. \<not> prefix pat (drop k s) \<Longrightarrow> find_pattern s pat = Some m"
proof (induction s arbitrary: m)
  case Nil
  then show ?case by simp
next
  case (Cons c cs)
  show ?case
  proof (cases m)
    case 0
    with Cons.prems show ?thesis by simp
  next
    case (Suc j)
    with Cons.prems have "\<not> prefix pat (c # cs)" by (metis drop0 zero_less_Suc)
    moreover have "find_pattern cs pat = Some j"
    proof (rule Cons.IH)
      show "prefix pat (drop j cs)" using Cons.prems(1) Suc by simp
      show "j \<le> length cs" using Cons.prems(2) Suc by simp
      show "\<forall>k<j. \<not> prefix pat (drop k cs)"
      proof (intro allI impI)
        fix k assume "k < j"
        then have "Suc k < m" using Suc by simp
        with Cons.prems(3) have "\<not> prefix pat (drop (Suc k) (c # cs))" by blast
        then show "\<not> prefix pat (drop k cs)" by simp
      qed
    qed
    ultimately show ?thesis using Suc by simp
  qed
qed

section \<open>The extractor on a located anchor\<close>

lemma prefix_drop_length: "prefix lit (drop p x) \<Longrightarrow> p \<le> length x \<Longrightarrow> p + length lit \<le> length x"
  by (auto simp: prefix_def dest!: arg_cong [where f = length])

lemma extract_fields_positions:
  "extract_fields b srch m pre_umi linker flank out0 =
     (case strncpy_str srch (umi1_start m pre_umi) UMI1_LEN of
        None \<Rightarrow> Inl OutOfBounds
      | Some u1 \<Rightarrow>
         (case strncmp_eq srch (linker_start m pre_umi) linker of
            None \<Rightarrow> Inl OutOfBounds
          | Some False \<Rightarrow> Inr (0, out0\<lparr>umi1 := u1\<rparr>)
          | Some True \<Rightarrow>
             (case strncpy_str srch (umi2_start m pre_umi linker) UMI2_LEN of
                None \<Rightarrow> Inl OutOfBounds
              | Some u2 \<Rightarrow>
                 (case strncmp_eq srch (flank_start m pre_umi linker) flank of
                    None \<Rightarrow> Inl OutOfBounds
                  | Some False \<Rightarrow> Inr (0, out0\<lparr>umi1 := u1, umi2 := u2\<rparr>)
                  | Some True \<Rightarrow>
                     (case byte_at srch (terminal_pos m pre_umi linker flank) of
                        None \<Rightarrow> Inl OutOfBounds
                      | Some c \<Rightarrow>
                         if c \<noteq> CHR ''A'' \<and> c \<noteq> CHR ''T''
                         then Inr (0, out0\<lparr>umi1 := u1, umi2 := u2\<rparr>)
                         else if found_rc out0 then
                           (if c_strlen b < motif_end m pre_umi linker flank
                            then Inl OutOfBounds
                            else Inr (1, out0\<lparr>umi1 := u1, umi2 := u2, trimmed_seq :=
                                   take (c_strlen b - motif_end m pre_umi linker flank) (c_str b)\<rparr>))
                         else
                           (case strcpy_str b (motif_end m pre_umi linker flank) of
                              None \<Rightarrow> Inl OutOfBounds
                            | Some t \<Rightarrow> Inr (1, out0\<lparr>umi1 := u1, umi2 := u2,
                                                   trimmed_seq := t\<rparr>)))))))"
proof -
  have n: "nat (int a - int c) = a - c" "(int a - int c < 0) = (a < c)" for a c :: nat
    by simp_all
  show ?thesis
    unfolding extract_fields_def Let_def n
    by (simp add: extract_fields_def Let_def umi1_start_def linker_start_def umi2_start_def
        flank_start_def terminal_pos_def motif_end_def n
        cong: option.case_cong bool.case_cong if_cong)
qed

lemma fields_wrong_linker:
  assumes "NUL \<notin> set x" "NUL \<notin> set linker" "wrong_linker x m pre_umi linker"
  shows "extract_fields b (x @ NUL # r) m pre_umi linker flank out0 =
           Inr (0, out0\<lparr>umi1 := take UMI1_LEN (drop (umi1_start m pre_umi) x)\<rparr>)"
proof -
  from assms(3) have le: "linker_start m pre_umi \<le> length x"
    and np: "\<not> prefix linker (drop (linker_start m pre_umi) x)"
    by (simp_all add: wrong_linker_def)
  from le have le1: "umi1_start m pre_umi \<le> length x"
    by (simp add: linker_start_def)
  show ?thesis
    using le le1 np assms(1,2)
    by (simp add: extract_fields_positions strncpy_str_in_string strncmp_eq_in_string)
qed

lemma fields_wrong_flank:
  assumes "NUL \<notin> set x" "NUL \<notin> set linker" "NUL \<notin> set flank"
    and "wrong_flank x m pre_umi linker flank"
  shows "\<exists>o'. extract_fields b (x @ NUL # r) m pre_umi linker flank out0 = Inr (0, o') \<and>
               trimmed_seq o' = trimmed_seq out0 \<and> found_rc o' = found_rc out0"
proof -
  from assms(4) have le: "flank_start m pre_umi linker \<le> length x"
    and np: "\<not> prefix flank (drop (flank_start m pre_umi linker) x)"
    by (simp_all add: wrong_flank_def)
  from le
  have le1: "umi1_start m pre_umi \<le> length x" "linker_start m pre_umi \<le> length x"
    "umi2_start m pre_umi linker \<le> length x"
    by (simp_all add: flank_start_def umi2_start_def linker_start_def)
  show ?thesis
    using le le1 np assms(1,2,3)
    by (cases "prefix linker (drop (linker_start m pre_umi) x)")
       (simp_all add: extract_fields_positions strncpy_str_in_string strncmp_eq_in_string)
qed

lemma fields_wrong_terminal:
  assumes "NUL \<notin> set x" "NUL \<notin> set linker" "NUL \<notin> set flank"
    and "wrong_terminal x m pre_umi linker flank"
  shows "\<exists>o'. extract_fields b (x @ NUL # r) m pre_umi linker flank out0 = Inr (0, o') \<and>
               trimmed_seq o' = trimmed_seq out0 \<and> found_rc o' = found_rc out0"
proof -
  let ?t = "terminal_pos m pre_umi linker flank"
  from assms(4) have le: "?t \<le> length x"
    and np: "\<not> (?t < length x \<and> x ! ?t \<in> {CHR ''A'', CHR ''T''})"
    by (simp_all add: wrong_terminal_def)
  from le
  have le1: "umi1_start m pre_umi \<le> length x" "linker_start m pre_umi \<le> length x"
    "umi2_start m pre_umi linker \<le> length x" "flank_start m pre_umi linker \<le> length x"
    by (simp_all add: terminal_pos_def flank_start_def umi2_start_def linker_start_def)
  obtain c where bt: "byte_at (x @ NUL # r) ?t = Some c" and c: "c \<noteq> CHR ''A''" "c \<noteq> CHR ''T''"
  proof (cases "?t < length x")
    case True
    with np have "x ! ?t \<noteq> CHR ''A''" "x ! ?t \<noteq> CHR ''T''" by auto
    moreover from True have "byte_at (x @ NUL # r) ?t = Some (x ! ?t)"
      by (simp add: byte_at_def nth_append)
    ultimately show ?thesis using that by blast
  next
    case False
    with le have "?t = length x" by simp
    then have "byte_at (x @ NUL # r) ?t = Some NUL" by (simp add: byte_at_def)
    moreover have "NUL \<noteq> CHR ''A''" "NUL \<noteq> CHR ''T''" by (simp_all add: NUL_def)
    ultimately show ?thesis using that by blast
  qed
  show ?thesis
    using le le1 assms(1,2,3) bt c
    by (cases "prefix linker (drop (linker_start m pre_umi) x)";
        cases "prefix flank (drop (flank_start m pre_umi linker) x)")
       (simp_all add: extract_fields_positions strncpy_str_in_string strncmp_eq_in_string)
qed

lemma validated_bounds:
  assumes "motif_validated x m pre_umi linker flank"
  shows "umi1_start m pre_umi \<le> length x" "linker_start m pre_umi \<le> length x"
    "umi2_start m pre_umi linker \<le> length x" "flank_start m pre_umi linker \<le> length x"
    "terminal_pos m pre_umi linker flank < length x"
    "motif_end m pre_umi linker flank \<le> length x"
  using assms
  by (simp_all add: motif_validated_def motif_end_def terminal_pos_def flank_start_def
        umi2_start_def linker_start_def)

lemma fields_validated:
  assumes "NUL \<notin> set x" "NUL \<notin> set linker" "NUL \<notin> set flank"
    and v: "motif_validated x m pre_umi linker flank"
  shows "extract_fields b (x @ NUL # r) m pre_umi linker flank out0 =
     (if found_rc out0 then
        (if c_strlen b < motif_end m pre_umi linker flank then Inl OutOfBounds
         else Inr (1, out0\<lparr>umi1 := take UMI1_LEN (drop (umi1_start m pre_umi) x),
                      umi2 := take UMI2_LEN (drop (umi2_start m pre_umi linker) x),
                      trimmed_seq := take (c_strlen b - motif_end m pre_umi linker flank) (c_str b)\<rparr>))
      else (case strcpy_str b (motif_end m pre_umi linker flank) of
              None \<Rightarrow> Inl OutOfBounds
            | Some t \<Rightarrow> Inr (1, out0\<lparr>umi1 := take UMI1_LEN (drop (umi1_start m pre_umi) x),
                      umi2 := take UMI2_LEN (drop (umi2_start m pre_umi linker) x),
                      trimmed_seq := t\<rparr>)))"
proof -
  let ?t = "terminal_pos m pre_umi linker flank"
  note le = validated_bounds [OF v]
  from v have pl: "prefix linker (drop (linker_start m pre_umi) x)"
    and pf: "prefix flank (drop (flank_start m pre_umi linker) x)"
    and tb: "x ! ?t = CHR ''A'' \<or> x ! ?t = CHR ''T''"
    by (auto simp: motif_validated_def)
  have bt: "byte_at (x @ NUL # r) ?t = Some (x ! ?t)"
    using le(5) by (simp add: byte_at_def nth_append)
  show ?thesis
    using le(1-4) pl pf tb assms(1,2,3) bt
    by (auto simp add: extract_fields_positions strncpy_str_in_string strncmp_eq_in_string)
qed

lemma extract_forward:
  assumes "NUL \<in> set b" "length pre_umi \<le> 255" "find_pattern (c_str b) pre_umi = Some m"
  shows "extract_umi_and_trim b pre_umi linker flank stk out =
           extract_fields b b m pre_umi linker flank (out\<lparr>found_rc := False\<rparr>)"
  using assms by (simp add: extract_umi_and_trim_def Let_def)

lemma extract_reverse:
  assumes "NUL \<in> set b" "length pre_umi \<le> 255" "c_strlen b < MAX_SEQ_LEN"
    "find_pattern (c_str b) pre_umi = None"
    "find_pattern (rc_string (c_str b)) pre_umi = Some m"
  shows "extract_umi_and_trim b pre_umi linker flank stk out =
           extract_fields b (reverse_complement b stk) m pre_umi linker flank
             (out\<lparr>found_rc := True\<rparr>)"
  using assms by (simp add: extract_umi_and_trim_def Let_def c_str_reverse_complement)

lemma extract_absent:
  assumes "NUL \<in> set b" "length pre_umi \<le> 255" "c_strlen b < MAX_SEQ_LEN"
    "spec_locate (c_str b) pre_umi = None"
  shows "extract_umi_and_trim b pre_umi linker flank stk out = Inr (0, out\<lparr>found_rc := False\<rparr>)"
  using assms
  by (simp add: extract_umi_and_trim_def Let_def c_str_reverse_complement spec_locate_def
        split: option.splits)

lemma extract_located:
  assumes b: "NUL \<in> set b" and lit: "literal_ok pre_umi linker flank"
    and loc: "spec_locate (c_str b) pre_umi = Some (m, rc)"
    and fit: "rc \<longrightarrow> c_strlen b < MAX_SEQ_LEN"
  shows "\<exists>r. extract_umi_and_trim b pre_umi linker flank stk out =
           extract_fields b (searched (c_str b) rc @ NUL # r) m pre_umi linker flank
             (out\<lparr>found_rc := rc\<rparr>) \<and> (\<not> rc \<longrightarrow> b = c_str b @ NUL # r)"
proof (cases rc)
  case False
  with loc have f: "find_pattern (c_str b) pre_umi = Some m"
    by (auto simp: spec_locate_def split: option.splits)
  from cbuf_split [OF b] obtain r where r: "b = c_str b @ NUL # r" ..
  from lit have "length pre_umi \<le> 255" by (simp add: literal_ok_def)
  then have "extract_umi_and_trim b pre_umi linker flank stk out =
      extract_fields b b m pre_umi linker flank (out\<lparr>found_rc := False\<rparr>)"
    using b f by (rule_tac extract_forward)
  also have "extract_fields b b m pre_umi linker flank (out\<lparr>found_rc := False\<rparr>) =
      extract_fields b (c_str b @ NUL # r) m pre_umi linker flank (out\<lparr>found_rc := False\<rparr>)"
    using r by (rule_tac arg_cong [where f = "\<lambda>z. extract_fields b z m pre_umi linker flank (out\<lparr>found_rc := False\<rparr>)"])
  finally show ?thesis using False r by (intro exI [of _ r]) (simp add: searched_def)
next
  case True
  with loc have f: "find_pattern (c_str b) pre_umi = None"
    "find_pattern (rc_string (c_str b)) pre_umi = Some m"
    by (auto simp: spec_locate_def split: option.splits)
  from lit have l: "length pre_umi \<le> 255" by (simp add: literal_ok_def)
  from True fit have "c_strlen b < MAX_SEQ_LEN" by simp
  then have "extract_umi_and_trim b pre_umi linker flank stk out =
      extract_fields b (reverse_complement b stk) m pre_umi linker flank (out\<lparr>found_rc := True\<rparr>)"
    using b l f by (rule_tac extract_reverse)
  with True show ?thesis by (auto simp: searched_def reverse_complement_def store_str_def)
qed

lemma searched_no_NUL: "NUL \<notin> set (searched (c_str b) rc)"
  by (simp add: searched_def rc_string_no_NUL c_str_no_NUL)

lemma length_searched: "length (searched s rc) = length s"
  by (simp add: searched_def length_rc_string)

lemma extract_validated:
  assumes b: "NUL \<in> set b" and lit: "literal_ok pre_umi linker flank"
    and loc: "spec_locate (c_str b) pre_umi = Some (m, rc)"
    and fit: "rc \<longrightarrow> c_strlen b < MAX_SEQ_LEN"
    and v: "motif_validated (searched (c_str b) rc) m pre_umi linker flank"
  shows "extract_umi_and_trim b pre_umi linker flank stk out =
           Inr (1, out\<lparr>found_rc := rc,
                  umi1 := take UMI1_LEN (drop (umi1_start m pre_umi) (searched (c_str b) rc)),
                  umi2 := take UMI2_LEN (drop (umi2_start m pre_umi linker) (searched (c_str b) rc)),
                  trimmed_seq := spec_slice (c_str b) (motif_end m pre_umi linker flank) rc\<rparr>)"
proof -
  let ?x = "searched (c_str b) rc"
  from extract_located [OF b lit loc fit, of stk out]
  obtain r where e: "extract_umi_and_trim b pre_umi linker flank stk out =
      extract_fields b (?x @ NUL # r) m pre_umi linker flank (out\<lparr>found_rc := rc\<rparr>)"
    and r: "\<not> rc \<Longrightarrow> b = c_str b @ NUL # r" by blast
  from lit have nl: "NUL \<notin> set linker" "NUL \<notin> set flank" by (simp_all add: literal_ok_def)
  have fv: "extract_fields b (?x @ NUL # r) m pre_umi linker flank (out\<lparr>found_rc := rc\<rparr>) =
     (if found_rc (out\<lparr>found_rc := rc\<rparr>) then
        (if c_strlen b < motif_end m pre_umi linker flank then Inl OutOfBounds
         else Inr (1, out\<lparr>found_rc := rc, umi1 := take UMI1_LEN (drop (umi1_start m pre_umi) ?x),
                      umi2 := take UMI2_LEN (drop (umi2_start m pre_umi linker) ?x),
                      trimmed_seq := take (c_strlen b - motif_end m pre_umi linker flank) (c_str b)\<rparr>))
      else (case strcpy_str b (motif_end m pre_umi linker flank) of
              None \<Rightarrow> Inl OutOfBounds
            | Some t \<Rightarrow> Inr (1, out\<lparr>found_rc := rc, umi1 := take UMI1_LEN (drop (umi1_start m pre_umi) ?x),
                      umi2 := take UMI2_LEN (drop (umi2_start m pre_umi linker) ?x),
                      trimmed_seq := t\<rparr>)))"
    by (rule fields_validated [OF searched_no_NUL nl v])
  from validated_bounds(6) [OF v] have le: "motif_end m pre_umi linker flank \<le> length (c_str b)"
    by (simp add: length_searched)
  show ?thesis
  proof (cases rc)
    case True
    with e fv le show ?thesis by (simp add: spec_slice_def c_strlen_def)
  next
    case False
    have "strcpy_str (c_str b @ NUL # r) (motif_end m pre_umi linker flank) =
            Some (drop (motif_end m pre_umi linker flank) (c_str b))"
      using le by (intro strcpy_str_in_string c_str_no_NUL)
    with r [OF False] have "strcpy_str b (motif_end m pre_umi linker flank) =
            Some (drop (motif_end m pre_umi linker flank) (c_str b))" by simp
    with False e fv show ?thesis by (simp add: spec_slice_def)
  qed
qed

lemma extract_invalid:
  assumes b: "NUL \<in> set b" and lit: "literal_ok pre_umi linker flank"
    and loc: "spec_locate (c_str b) pre_umi = Some (m, rc)"
    and fit: "rc \<longrightarrow> c_strlen b < MAX_SEQ_LEN"
    and w: "wrong_linker (searched (c_str b) rc) m pre_umi linker \<or>
            wrong_flank (searched (c_str b) rc) m pre_umi linker flank \<or>
            wrong_terminal (searched (c_str b) rc) m pre_umi linker flank"
  shows "\<exists>o'. extract_umi_and_trim b pre_umi linker flank stk out = Inr (0, o') \<and>
               trimmed_seq o' = trimmed_seq out \<and> found_rc o' = rc"
proof -
  let ?x = "searched (c_str b) rc"
  from extract_located [OF b lit loc fit, of stk out]
  obtain r where e: "extract_umi_and_trim b pre_umi linker flank stk out =
      extract_fields b (?x @ NUL # r) m pre_umi linker flank (out\<lparr>found_rc := rc\<rparr>)"
    by blast
  from lit have nl: "NUL \<notin> set linker" "NUL \<notin> set flank" by (simp_all add: literal_ok_def)
  from w consider (l) "wrong_linker ?x m pre_umi linker"
    | (f) "wrong_flank ?x m pre_umi linker flank"
    | (t) "wrong_terminal ?x m pre_umi linker flank" by blast
  then show ?thesis
  proof cases
    case l
    from fields_wrong_linker [OF searched_no_NUL nl(1) l] e
    show ?thesis by simp
  next
    case f
    from fields_wrong_flank [OF searched_no_NUL nl f, where b = b and r = r
        and ?out0.0 = "out\<lparr>found_rc := rc\<rparr>"] e
    show ?thesis by simp
  next
    case t
    from fields_wrong_terminal [OF searched_no_NUL nl t, where b = b and r = r
        and ?out0.0 = "out\<lparr>found_rc := rc\<rparr>"] e
    show ?thesis by simp
  qed
qed

section \<open>The two motifs\<close>

lemma tra_literal_ok: "literal_ok PRE_UMI1_TRA LINKER_FWD_TRA FLANK_TRA_SEQ"
  by (simp add: literal_ok_def PRE_UMI1_TRA_def LINKER_FWD_TRA_def FLANK_TRA_SEQ_def NUL_def)

lemma trb_literal_ok: "literal_ok PRE_UMI1_TRB LINKER_REV_TRB FLANK_TRB_SEQ"
  by (simp add: literal_ok_def PRE_UMI1_TRB_def LINKER_REV_TRB_def FLANK_TRB_SEQ_def NUL_def)

section \<open>Claims about the sequence utilities\<close>



section \<open>Claims about the motif extractor\<close>

text \<open>
  C1. When the anchor is found in the read as given and the composite motif behind it
  is validated, the extractor reports a forward match and the trimmed sequence is the
  suffix of the read from the motif end boundary. When the anchor is found only in the
  reverse complement and the motif is validated there, the extractor reports a
  reverse-complement match and the trimmed sequence is the prefix of the read of
  length \<open>length read - boundary\<close>, the boundary being the motif end in the
  coordinates of the reverse complement.
\<close>

theorem trim_boundary_by_orientation:
  assumes "NUL \<in> set b" and "literal_ok pre_umi linker flank"
  shows "(find_pattern (c_str b) pre_umi = Some m \<and>
          motif_validated (c_str b) m pre_umi linker flank \<longrightarrow>
            (\<exists>o'. extract_umi_and_trim b pre_umi linker flank stk out = Inr (1, o') \<and>
                   \<not> found_rc o' \<and>
                   trimmed_seq o' = drop (motif_end m pre_umi linker flank) (c_str b))) \<and>
         (find_pattern (c_str b) pre_umi = None \<and> c_strlen b < MAX_SEQ_LEN \<and>
          find_pattern (rc_string (c_str b)) pre_umi = Some m \<and>
          motif_validated (rc_string (c_str b)) m pre_umi linker flank \<longrightarrow>
            (\<exists>o'. extract_umi_and_trim b pre_umi linker flank stk out = Inr (1, o') \<and>
                   found_rc o' \<and>
                   trimmed_seq o' =
                     take (length (c_str b) - motif_end m pre_umi linker flank) (c_str b)))"
proof (intro conjI impI)
  assume a: "find_pattern (c_str b) pre_umi = Some m \<and>
          motif_validated (c_str b) m pre_umi linker flank"
  then have loc: "spec_locate (c_str b) pre_umi = Some (m, False)"
    by (simp add: spec_locate_def)
  from a have v: "motif_validated (searched (c_str b) False) m pre_umi linker flank"
    by (simp add: searched_def)
  from extract_validated [OF assms loc _ v, of stk out]
  show "\<exists>o'. extract_umi_and_trim b pre_umi linker flank stk out = Inr (1, o') \<and>
                   \<not> found_rc o' \<and>
                   trimmed_seq o' = drop (motif_end m pre_umi linker flank) (c_str b)"
    by (simp add: spec_slice_def)
next
  assume a: "find_pattern (c_str b) pre_umi = None \<and> c_strlen b < MAX_SEQ_LEN \<and>
          find_pattern (rc_string (c_str b)) pre_umi = Some m \<and>
          motif_validated (rc_string (c_str b)) m pre_umi linker flank"
  then have loc: "spec_locate (c_str b) pre_umi = Some (m, True)"
    by (simp add: spec_locate_def)
  from a have v: "motif_validated (searched (c_str b) True) m pre_umi linker flank"
    by (simp add: searched_def)
  from a have fit: "True \<longrightarrow> c_strlen b < MAX_SEQ_LEN" by simp
  from extract_validated [OF assms loc fit v, of stk out]
  show "\<exists>o'. extract_umi_and_trim b pre_umi linker flank stk out = Inr (1, o') \<and>
                   found_rc o' \<and>
                   trimmed_seq o' =
                     take (length (c_str b) - motif_end m pre_umi linker flank) (c_str b)"
    by (simp add: spec_slice_def)
qed

text \<open>C1 at the specification's forward scenario and at a reverse-complement read.\<close>

theorem trim_boundary_by_orientation_witness:
  "(NUL \<in> set fwd_read \<and> literal_ok PRE_UMI1_TRA LINKER_FWD_TRA FLANK_TRA_SEQ \<and>
    find_pattern (c_str fwd_read) PRE_UMI1_TRA = Some 0 \<and>
    motif_validated (c_str fwd_read) 0 PRE_UMI1_TRA LINKER_FWD_TRA FLANK_TRA_SEQ \<and>
    (\<exists>o'. extract_umi_and_trim fwd_read PRE_UMI1_TRA LINKER_FWD_TRA FLANK_TRA_SEQ [] no_outs =
             Inr (1, o') \<and> \<not> found_rc o' \<and> trimmed_seq o' = ''GGGCCC'')) \<and>
   (NUL \<in> set rc_read \<and>
    find_pattern (c_str rc_read) PRE_UMI1_TRA = None \<and> c_strlen rc_read < MAX_SEQ_LEN \<and>
    find_pattern (rc_string (c_str rc_read)) PRE_UMI1_TRA = Some 6 \<and>
    motif_validated (rc_string (c_str rc_read)) 6 PRE_UMI1_TRA LINKER_FWD_TRA FLANK_TRA_SEQ \<and>
    (\<exists>o'. extract_umi_and_trim rc_read PRE_UMI1_TRA LINKER_FWD_TRA FLANK_TRA_SEQ [] no_outs =
             Inr (1, o') \<and> found_rc o' \<and> trimmed_seq o' = ''CC''))"
proof -
  have f1: "NUL \<in> set fwd_read" by code_simp
  have f2: "find_pattern (c_str fwd_read) PRE_UMI1_TRA = Some 0" by code_simp
  have f3: "motif_validated (c_str fwd_read) 0 PRE_UMI1_TRA LINKER_FWD_TRA FLANK_TRA_SEQ"
    by code_simp
  have f4: "drop (motif_end 0 PRE_UMI1_TRA LINKER_FWD_TRA FLANK_TRA_SEQ) (c_str fwd_read) = ''GGGCCC''"
    by code_simp
  have r1: "NUL \<in> set rc_read" by code_simp
  have r2: "find_pattern (c_str rc_read) PRE_UMI1_TRA = None" by code_simp
  have r3: "c_strlen rc_read < MAX_SEQ_LEN" by code_simp
  have r4: "find_pattern (rc_string (c_str rc_read)) PRE_UMI1_TRA = Some 6" by code_simp
  have r5: "motif_validated (rc_string (c_str rc_read)) 6 PRE_UMI1_TRA LINKER_FWD_TRA FLANK_TRA_SEQ"
    by code_simp
  have r6: "take (length (c_str rc_read) - motif_end 6 PRE_UMI1_TRA LINKER_FWD_TRA FLANK_TRA_SEQ)
              (c_str rc_read) = ''CC''"
    by code_simp
  from trim_boundary_by_orientation [OF f1 tra_literal_ok, of 0 "[]" no_outs] f2 f3 f4
  have a: "\<exists>o'. extract_umi_and_trim fwd_read PRE_UMI1_TRA LINKER_FWD_TRA FLANK_TRA_SEQ [] no_outs =
             Inr (1, o') \<and> \<not> found_rc o' \<and> trimmed_seq o' = ''GGGCCC''"
    by simp
  from trim_boundary_by_orientation [OF r1 tra_literal_ok, of 6 "[]" no_outs] r2 r3 r4 r5 r6
  have b: "\<exists>o'. extract_umi_and_trim rc_read PRE_UMI1_TRA LINKER_FWD_TRA FLANK_TRA_SEQ [] no_outs =
             Inr (1, o') \<and> found_rc o' \<and> trimmed_seq o' = ''CC''"
    by simp
  from a b f1 f2 f3 r1 r2 r3 r4 r5 tra_literal_ok show ?thesis by blast
qed

text \<open>
  A string that holds the composite at offset \<open>length pfx\<close>: the motif is validated
  there, the UMI fields are \<open>u1\<close> and \<open>u2\<close>, and what follows the motif end
  boundary is \<open>post\<close>.
\<close>

lemma composite_fields:
  assumes s: "s = pfx @ composite pre_umi u1 linker u2 flank [t] @ post"
    and u: "length u1 = UMI1_LEN" "length u2 = UMI2_LEN"
    and t: "t = CHR ''A'' \<or> t = CHR ''T''"
  shows "motif_validated s (length pfx) pre_umi linker flank"
    and "take UMI1_LEN (drop (umi1_start (length pfx) pre_umi) s) = u1"
    and "take UMI2_LEN (drop (umi2_start (length pfx) pre_umi linker) s) = u2"
    and "drop (motif_end (length pfx) pre_umi linker flank) s = post"
    and "length s - motif_end (length pfx) pre_umi linker flank = length post"
proof -
  have d1: "drop (umi1_start (length pfx) pre_umi) s = u1 @ linker @ u2 @ flank @ [t] @ post"
    by (simp add: s composite_def umi1_start_def)
  have d2: "drop (linker_start (length pfx) pre_umi) s = linker @ u2 @ flank @ [t] @ post"
    using u by (simp add: s composite_def umi1_start_def linker_start_def)
  have d3: "drop (umi2_start (length pfx) pre_umi linker) s = u2 @ flank @ [t] @ post"
    using u by (simp add: s composite_def umi1_start_def linker_start_def umi2_start_def)
  have d4: "drop (flank_start (length pfx) pre_umi linker) s = flank @ [t] @ post"
    using u by (simp add: s composite_def umi1_start_def linker_start_def umi2_start_def
        flank_start_def)
  have d5: "drop (terminal_pos (length pfx) pre_umi linker flank) s = [t] @ post"
    using u by (simp add: s composite_def umi1_start_def linker_start_def umi2_start_def
        flank_start_def terminal_pos_def)
  have l: "length s = terminal_pos (length pfx) pre_umi linker flank + 1 + length post"
    using u by (simp add: s composite_def umi1_start_def linker_start_def umi2_start_def
        flank_start_def terminal_pos_def)
  then have lt: "terminal_pos (length pfx) pre_umi linker flank < length s" by simp
  have n: "s ! terminal_pos (length pfx) pre_umi linker flank = t"
    using d5 lt by (metis append_Cons append_Nil hd_drop_conv_nth list.sel(1))
  show "motif_validated s (length pfx) pre_umi linker flank"
    using t by (simp add: motif_validated_def d2 d4 lt n)
  show "take UMI1_LEN (drop (umi1_start (length pfx) pre_umi) s) = u1"
    using u by (simp add: d1)
  show "take UMI2_LEN (drop (umi2_start (length pfx) pre_umi linker) s) = u2"
    using u by (simp add: d3)
  show "drop (motif_end (length pfx) pre_umi linker flank) s = post"
    using u by (simp add: s composite_def umi1_start_def linker_start_def umi2_start_def
        flank_start_def terminal_pos_def motif_end_def)
  show "length s - motif_end (length pfx) pre_umi linker flank = length post"
    using l by (simp add: motif_end_def)
qed

text \<open>
  C3 (as amended). A read that holds, verbatim and in forward orientation,
  anchor + umi1 (7 characters) + linker + umi2 (7 characters) + flank + "A", and in
  which no occurrence of the anchor starts before that of the composite, gives a match
  with orientation forward, exactly those umi1 and umi2, and what follows the
  composite as trimmed sequence.
\<close>

theorem forward_composite_first_anchor:
  assumes "NUL \<in> set b" and "literal_ok pre_umi linker flank"
    and "c_str b = pfx @ composite pre_umi u1 linker u2 flank ''A'' @ post"
    and "length u1 = UMI1_LEN" and "length u2 = UMI2_LEN"
    and "find_pattern (c_str b) pre_umi = Some (length pfx)"
  shows "extract_umi_and_trim b pre_umi linker flank stk out =
           Inr (1, out\<lparr>found_rc := False, umi1 := u1, umi2 := u2, trimmed_seq := post\<rparr>)"
proof -
  have loc: "spec_locate (c_str b) pre_umi = Some (length pfx, False)"
    using assms(6) by (simp add: spec_locate_def)
  note cf = composite_fields [OF assms(3) assms(4) assms(5), simplified]
  have v: "motif_validated (searched (c_str b) False) (length pfx) pre_umi linker flank"
    using cf(1) by (simp add: searched_def)
  from extract_validated [OF assms(1,2) loc _ v, of stk out] cf(2,3,4)
  show ?thesis by (simp add: searched_def spec_slice_def)
qed

text \<open>
  C3 as amended, at the specification's end-to-end scenario.
\<close>

theorem forward_composite_first_anchor_witness:
  "NUL \<in> set fwd_read \<and> literal_ok PRE_UMI1_TRA LINKER_FWD_TRA FLANK_TRA_SEQ \<and>
   c_str fwd_read =
     [] @ composite PRE_UMI1_TRA ''AAAAAAA'' LINKER_FWD_TRA ''TTTTTTT'' FLANK_TRA_SEQ ''A'' @
     ''GGGCCC'' \<and>
   length ''AAAAAAA'' = UMI1_LEN \<and> length ''TTTTTTT'' = UMI2_LEN \<and>
   find_pattern (c_str fwd_read) PRE_UMI1_TRA = Some (length ([] :: string)) \<and>
   extract_umi_and_trim fwd_read PRE_UMI1_TRA LINKER_FWD_TRA FLANK_TRA_SEQ [] no_outs =
     Inr (1, \<lparr>umi1 = ''AAAAAAA'', umi2 = ''TTTTTTT'', trimmed_seq = ''GGGCCC'',
              found_rc = False\<rparr>)"
proof -
  have h1: "NUL \<in> set fwd_read" by code_simp
  have h3: "c_str fwd_read =
     [] @ composite PRE_UMI1_TRA ''AAAAAAA'' LINKER_FWD_TRA ''TTTTTTT'' FLANK_TRA_SEQ ''A'' @
     ''GGGCCC''" by code_simp
  have h4: "length ''AAAAAAA'' = UMI1_LEN" by code_simp
  have h5: "length ''TTTTTTT'' = UMI2_LEN" by code_simp
  have h6: "find_pattern (c_str fwd_read) PRE_UMI1_TRA = Some (length ([] :: string))"
    by code_simp
  from forward_composite_first_anchor [OF h1 tra_literal_ok h3 h4 h5 h6, of "[]" no_outs]
  have "extract_umi_and_trim fwd_read PRE_UMI1_TRA LINKER_FWD_TRA FLANK_TRA_SEQ [] no_outs =
     Inr (1, \<lparr>umi1 = ''AAAAAAA'', umi2 = ''TTTTTTT'', trimmed_seq = ''GGGCCC'',
              found_rc = False\<rparr>)"
    by (simp add: no_outs_def)
  with h1 h3 h4 h5 h6 tra_literal_ok show ?thesis by blast
qed

text \<open>
  C3 as stated fails: a read that holds the anchor and then the whole composite is
  searched at its first anchor only; the linker check fails there and the return
  value is 0.
\<close>

theorem forward_composite_counterexample:
  "c_str two_anchors_read =
     PRE_UMI1_TRA @
     composite PRE_UMI1_TRA ''AAAAAAA'' LINKER_FWD_TRA ''TTTTTTT'' FLANK_TRA_SEQ ''A'' \<and>
   extract_umi_and_trim two_anchors_read PRE_UMI1_TRA LINKER_FWD_TRA FLANK_TRA_SEQ [] no_outs =
     Inr (0, \<lparr>umi1 = ''GACTCTG'', umi2 = [], trimmed_seq = [], found_rc = False\<rparr>)"
  by code_simp

text \<open>
  C4 (as amended). A read that holds the reverse complement of a composite over the
  alphabet A, C, G, T, N, that has no forward occurrence of the anchor, and whose
  reverse complement has no occurrence of the anchor before that of the composite,
  gives a match with orientation reverse complement and the umi1 and umi2 of the
  forward construction; the trimmed sequence is what precedes the embedded text.
\<close>

theorem reverse_composite_no_forward_anchor:
  assumes "NUL \<in> set b" and "literal_ok pre_umi linker flank"
    and "c_strlen b < MAX_SEQ_LEN"
    and "c_str b = pfx @ rc_string (composite pre_umi u1 linker u2 flank [t]) @ post"
    and "t = CHR ''A'' \<or> t = CHR ''T''"
    and "length u1 = UMI1_LEN" and "length u2 = UMI2_LEN"
    and "set (composite pre_umi u1 linker u2 flank [t]) \<subseteq> set ''ACGTN''"
    and "find_pattern (c_str b) pre_umi = None"
    and "find_pattern (rc_string (c_str b)) pre_umi = Some (length post)"
  shows "extract_umi_and_trim b pre_umi linker flank stk out =
           Inr (1, out\<lparr>found_rc := True, umi1 := u1, umi2 := u2, trimmed_seq := pfx\<rparr>)"
proof -
  let ?x = "rc_string (c_str b)"
  have x: "?x = rc_string post @ composite pre_umi u1 linker u2 flank [t] @ rc_string pfx"
    using rc_string_involution [OF assms(8)] by (simp add: assms(4) rc_string_append)
  have lp: "length (rc_string post) = length post" by (rule length_rc_string)
  note cf = composite_fields [OF x assms(6) assms(7) assms(5), unfolded lp]
  have loc: "spec_locate (c_str b) pre_umi = Some (length post, True)"
    using assms(9,10) by (simp add: spec_locate_def)
  have v: "motif_validated (searched (c_str b) True) (length post) pre_umi linker flank"
    using cf(1) by (simp add: searched_def)
  have fit: "True \<longrightarrow> c_strlen b < MAX_SEQ_LEN" using assms(3) by simp
  have "length (c_str b) - motif_end (length post) pre_umi linker flank = length pfx"
    using cf(5) by (simp add: length_rc_string)
  then have sl: "spec_slice (c_str b) (motif_end (length post) pre_umi linker flank) True = pfx"
    by (simp add: spec_slice_def assms(4))
  from extract_validated [OF assms(1,2) loc fit v, of stk out] cf(2,3) sl
  show ?thesis by (simp add: searched_def)
qed

text \<open>
  C4 as amended, at a read that holds the reverse complement of the scenario's composite.
\<close>

theorem reverse_composite_no_forward_anchor_witness:
  "NUL \<in> set rc_read \<and> literal_ok PRE_UMI1_TRA LINKER_FWD_TRA FLANK_TRA_SEQ \<and>
   c_strlen rc_read < MAX_SEQ_LEN \<and>
   c_str rc_read =
     ''CC'' @
     rc_string (composite PRE_UMI1_TRA ''AAAAAAA'' LINKER_FWD_TRA ''TTTTTTT'' FLANK_TRA_SEQ
                  [CHR ''A'']) @
     ''GGGCCC'' \<and>
   set (composite PRE_UMI1_TRA ''AAAAAAA'' LINKER_FWD_TRA ''TTTTTTT'' FLANK_TRA_SEQ [CHR ''A''])
     \<subseteq> set ''ACGTN'' \<and>
   find_pattern (c_str rc_read) PRE_UMI1_TRA = None \<and>
   find_pattern (rc_string (c_str rc_read)) PRE_UMI1_TRA = Some (length ''GGGCCC'') \<and>
   extract_umi_and_trim rc_read PRE_UMI1_TRA LINKER_FWD_TRA FLANK_TRA_SEQ [] no_outs =
     Inr (1, \<lparr>umi1 = ''AAAAAAA'', umi2 = ''TTTTTTT'', trimmed_seq = ''CC'', found_rc = True\<rparr>)"
proof -
  have h1: "NUL \<in> set rc_read" by code_simp
  have h3: "c_strlen rc_read < MAX_SEQ_LEN" by code_simp
  have h4: "c_str rc_read =
     ''CC'' @
     rc_string (composite PRE_UMI1_TRA ''AAAAAAA'' LINKER_FWD_TRA ''TTTTTTT'' FLANK_TRA_SEQ
                  [CHR ''A'']) @
     ''GGGCCC''" by code_simp
  have h5: "CHR ''A'' = CHR ''A'' \<or> CHR ''A'' = CHR ''T''" by simp
  have h6: "length ''AAAAAAA'' = UMI1_LEN" by code_simp
  have h7: "length ''TTTTTTT'' = UMI2_LEN" by code_simp
  have h8: "set (composite PRE_UMI1_TRA ''AAAAAAA'' LINKER_FWD_TRA ''TTTTTTT'' FLANK_TRA_SEQ
              [CHR ''A'']) \<subseteq> set ''ACGTN''"
    by (simp add: composite_def PRE_UMI1_TRA_def LINKER_FWD_TRA_def FLANK_TRA_SEQ_def)
  have h9: "find_pattern (c_str rc_read) PRE_UMI1_TRA = None" by code_simp
  have h10: "find_pattern (rc_string (c_str rc_read)) PRE_UMI1_TRA = Some (length ''GGGCCC'')"
    by code_simp
  from reverse_composite_no_forward_anchor [OF h1 tra_literal_ok h3 h4 h5 h6 h7 h8 h9 h10,
      of "[]" no_outs]
  have "extract_umi_and_trim rc_read PRE_UMI1_TRA LINKER_FWD_TRA FLANK_TRA_SEQ [] no_outs =
     Inr (1, \<lparr>umi1 = ''AAAAAAA'', umi2 = ''TTTTTTT'', trimmed_seq = ''CC'', found_rc = True\<rparr>)"
    by (simp add: no_outs_def)
  with h1 h3 h4 h8 h9 h10 tra_literal_ok show ?thesis by blast
qed

text \<open>
  C4 as stated fails: when the text around the embedded reverse complement holds the
  anchor in forward orientation, the reverse complement is never searched and the
  return value is 0.
\<close>

theorem reverse_composite_counterexample:
  "c_str anchor_before_rc_read =
     PRE_UMI1_TRA @ ''AAAAAAAC'' @
     rc_string (composite PRE_UMI1_TRA ''AAAAAAA'' LINKER_FWD_TRA ''TTTTTTT'' FLANK_TRA_SEQ ''A'') \<and>
   extract_umi_and_trim anchor_before_rc_read PRE_UMI1_TRA LINKER_FWD_TRA FLANK_TRA_SEQ []
     no_outs =
     Inr (0, \<lparr>umi1 = ''AAAAAAA'', umi2 = [], trimmed_seq = [], found_rc = False\<rparr>)"
  by code_simp

text \<open>
  C5 (as amended). If the anchor is absent in both orientations, the extractor
  returns 0 and leaves the output parameters as they were (the flag cleared). If the
  anchor is located and the linker, the flank or the terminal base behind it is
  wrong, the extractor returns 0 and does not write the trimmed sequence. (The UMI
  arrays may have been written by then.)
\<close>

theorem failed_validation_no_match:
  assumes "NUL \<in> set b" and "literal_ok pre_umi linker flank" and "c_strlen b < MAX_SEQ_LEN"
  shows "(spec_locate (c_str b) pre_umi = None \<longrightarrow>
            extract_umi_and_trim b pre_umi linker flank stk out =
              Inr (0, out\<lparr>found_rc := False\<rparr>)) \<and>
         (spec_locate (c_str b) pre_umi = Some (m, rc) \<and>
          (wrong_linker (searched (c_str b) rc) m pre_umi linker \<or>
           wrong_flank (searched (c_str b) rc) m pre_umi linker flank \<or>
           wrong_terminal (searched (c_str b) rc) m pre_umi linker flank) \<longrightarrow>
            (\<exists>o'. extract_umi_and_trim b pre_umi linker flank stk out = Inr (0, o') \<and>
                   trimmed_seq o' = trimmed_seq out))"
proof (intro conjI impI)
  assume "spec_locate (c_str b) pre_umi = None"
  with assms show "extract_umi_and_trim b pre_umi linker flank stk out =
              Inr (0, out\<lparr>found_rc := False\<rparr>)"
    by (intro extract_absent) (simp_all add: literal_ok_def)
next
  assume a: "spec_locate (c_str b) pre_umi = Some (m, rc) \<and>
          (wrong_linker (searched (c_str b) rc) m pre_umi linker \<or>
           wrong_flank (searched (c_str b) rc) m pre_umi linker flank \<or>
           wrong_terminal (searched (c_str b) rc) m pre_umi linker flank)"
  from assms(3) have fit: "rc \<longrightarrow> c_strlen b < MAX_SEQ_LEN" by simp
  from extract_invalid [OF assms(1,2) conjunct1 [OF a] fit conjunct2 [OF a], of stk out]
  show "\<exists>o'. extract_umi_and_trim b pre_umi linker flank stk out = Inr (0, o') \<and>
                   trimmed_seq o' = trimmed_seq out"
    by blast
qed

text \<open>
  C5 as amended, at a read without the anchor and at a read with one linker
  character changed.
\<close>

theorem failed_validation_no_match_witness:
  "NUL \<in> set no_anchor_read \<and> c_strlen no_anchor_read < MAX_SEQ_LEN \<and>
   literal_ok PRE_UMI1_TRA LINKER_FWD_TRA FLANK_TRA_SEQ \<and>
   spec_locate (c_str no_anchor_read) PRE_UMI1_TRA = None \<and>
   extract_umi_and_trim no_anchor_read PRE_UMI1_TRA LINKER_FWD_TRA FLANK_TRA_SEQ [] no_outs =
     Inr (0, no_outs) \<and>
   NUL \<in> set bad_linker_read \<and> c_strlen bad_linker_read < MAX_SEQ_LEN \<and>
   spec_locate (c_str bad_linker_read) PRE_UMI1_TRA = Some (0, False) \<and>
   wrong_linker (searched (c_str bad_linker_read) False) 0 PRE_UMI1_TRA LINKER_FWD_TRA \<and>
   (\<exists>o'. extract_umi_and_trim bad_linker_read PRE_UMI1_TRA LINKER_FWD_TRA FLANK_TRA_SEQ []
            no_outs = Inr (0, o') \<and> trimmed_seq o' = [])"
proof -
  have a1: "NUL \<in> set no_anchor_read" by code_simp
  have a2: "c_strlen no_anchor_read < MAX_SEQ_LEN" by code_simp
  have a3: "spec_locate (c_str no_anchor_read) PRE_UMI1_TRA = None" by code_simp
  have b1: "NUL \<in> set bad_linker_read" by code_simp
  have b2: "c_strlen bad_linker_read < MAX_SEQ_LEN" by code_simp
  have b3: "spec_locate (c_str bad_linker_read) PRE_UMI1_TRA = Some (0, False)" by code_simp
  have b4: "wrong_linker (searched (c_str bad_linker_read) False) 0 PRE_UMI1_TRA LINKER_FWD_TRA"
    by code_simp
  from failed_validation_no_match [OF a1 tra_literal_ok a2, where m = 0 and rc = False and stk = "[]"
      and out = no_outs] a3
  have a: "extract_umi_and_trim no_anchor_read PRE_UMI1_TRA LINKER_FWD_TRA FLANK_TRA_SEQ []
             no_outs = Inr (0, no_outs)"
    by (simp add: no_outs_def)
  from failed_validation_no_match [OF b1 tra_literal_ok b2, where m = 0 and rc = False and stk = "[]"
      and out = no_outs] b3 b4
  have b: "\<exists>o'. extract_umi_and_trim bad_linker_read PRE_UMI1_TRA LINKER_FWD_TRA FLANK_TRA_SEQ []
            no_outs = Inr (0, o') \<and> trimmed_seq o' = []"
    by (simp add: no_outs_def)
  from a b a1 a2 a3 b1 b2 b3 b4 tra_literal_ok show ?thesis by blast
qed

text \<open>
  C5 as stated fails: UMI1 is copied into the caller's array before the linker is
  checked, so a read with a corrupted linker returns 0 with the UMI1 value in
  \<^verbatim>\<open>umi1\<close>.
\<close>

theorem failed_validation_counterexample:
  "umi1 no_outs = [] \<and>
   extract_umi_and_trim bad_linker_read PRE_UMI1_TRA LINKER_FWD_TRA FLANK_TRA_SEQ [] no_outs =
     Inr (0, \<lparr>umi1 = ''AAAAAAA'', umi2 = [], trimmed_seq = [], found_rc = False\<rparr>)"
  by code_simp

text \<open>
  The forward search decides: if the anchor occurs in the read in forward orientation
  and its first occurrence is followed by a linker, flank or terminal base that
  starts inside the read and is wrong, the extractor returns 0 with the flag for the
  reverse complement clear, whatever the reverse complement of the read holds and
  whatever the local array held.
\<close>

lemma forward_anchor_blocks_reverse:
  assumes "NUL \<in> set b" and "literal_ok pre_umi linker flank"
    and "find_pattern (c_str b) pre_umi = Some m"
    and "wrong_linker (c_str b) m pre_umi linker \<or>
         wrong_flank (c_str b) m pre_umi linker flank \<or>
         wrong_terminal (c_str b) m pre_umi linker flank"
  shows "\<exists>o'. (\<forall>stk. extract_umi_and_trim b pre_umi linker flank stk out = Inr (0, o')) \<and>
              \<not> found_rc o' \<and> trimmed_seq o' = trimmed_seq out"
proof -
  have loc: "spec_locate (c_str b) pre_umi = Some (m, False)"
    using assms(3) by (simp add: spec_locate_def)
  have w: "wrong_linker (searched (c_str b) False) m pre_umi linker \<or>
           wrong_flank (searched (c_str b) False) m pre_umi linker flank \<or>
           wrong_terminal (searched (c_str b) False) m pre_umi linker flank"
    using assms(4) by (simp add: searched_def)
  from extract_invalid [OF assms(1,2) loc _ w, of "[]" out]
  obtain o' where o: "extract_umi_and_trim b pre_umi linker flank [] out = Inr (0, o')"
    "trimmed_seq o' = trimmed_seq out" "\<not> found_rc o'" by auto
  from assms(2) have l: "length pre_umi \<le> 255" by (simp add: literal_ok_def)
  have "extract_umi_and_trim b pre_umi linker flank stk out =
        extract_umi_and_trim b pre_umi linker flank [] out" for stk
    by (simp add: extract_forward [OF assms(1) l assms(3)])
  with o show ?thesis by auto
qed

text \<open>
  The same at a read whose first forward anchor has a wrong linker while its reverse
  complement holds a valid composite.
\<close>

lemma forward_anchor_blocks_reverse_at_read:
  "NUL \<in> set anchor_before_rc_read \<and> literal_ok PRE_UMI1_TRA LINKER_FWD_TRA FLANK_TRA_SEQ \<and>
   find_pattern (c_str anchor_before_rc_read) PRE_UMI1_TRA = Some 0 \<and>
   wrong_linker (c_str anchor_before_rc_read) 0 PRE_UMI1_TRA LINKER_FWD_TRA \<and>
   find_pattern (rc_string (c_str anchor_before_rc_read)) PRE_UMI1_TRA = Some 0 \<and>
   motif_validated (rc_string (c_str anchor_before_rc_read)) 0 PRE_UMI1_TRA LINKER_FWD_TRA
     FLANK_TRA_SEQ \<and>
   (\<exists>o'. (\<forall>stk. extract_umi_and_trim anchor_before_rc_read PRE_UMI1_TRA LINKER_FWD_TRA
                   FLANK_TRA_SEQ stk no_outs = Inr (0, o')) \<and>
          \<not> found_rc o' \<and> trimmed_seq o' = [])"
proof -
  have h1: "NUL \<in> set anchor_before_rc_read" by code_simp
  have h3: "find_pattern (c_str anchor_before_rc_read) PRE_UMI1_TRA = Some 0" by code_simp
  have h4: "wrong_linker (c_str anchor_before_rc_read) 0 PRE_UMI1_TRA LINKER_FWD_TRA"
    by code_simp
  have r1: "find_pattern (rc_string (c_str anchor_before_rc_read)) PRE_UMI1_TRA = Some 0"
    by code_simp
  have r2: "motif_validated (rc_string (c_str anchor_before_rc_read)) 0 PRE_UMI1_TRA
              LINKER_FWD_TRA FLANK_TRA_SEQ"
    by code_simp
  from forward_anchor_blocks_reverse [OF h1 tra_literal_ok h3 disjI1 [OF h4], of no_outs]
  have "\<exists>o'. (\<forall>stk. extract_umi_and_trim anchor_before_rc_read PRE_UMI1_TRA LINKER_FWD_TRA
                   FLANK_TRA_SEQ stk no_outs = Inr (0, o')) \<and>
          \<not> found_rc o' \<and> trimmed_seq o' = []"
    by (simp add: no_outs_def)
  with h1 h3 h4 r1 r2 tra_literal_ok show ?thesis by blast
qed

text \<open>
  C10 (the code departs from the claim). The read holds the anchor in forward
  orientation, followed by UMI1, the linker and three more bases: it ends inside
  UMI2, so no flank and no terminal base follow the first forward anchor, and the
  motif is not validated in the read. The extractor steps over the terminator when it
  skips UMI2 and compares the flank and the terminal base with the bytes an earlier
  record left in the array: it returns 1 instead of 0.
\<close>

theorem cut_read_forward_anchor_matches:
  "c_str umi2_cut_read = PRE_UMI1_TRA @ ''AAAAAAA'' @ LINKER_FWD_TRA @ ''TTT'' \<and>
   find_pattern (c_str umi2_cut_read) PRE_UMI1_TRA = Some 0 \<and>
   \<not> motif_validated (c_str umi2_cut_read) 0 PRE_UMI1_TRA LINKER_FWD_TRA FLANK_TRA_SEQ \<and>
   extract_umi_and_trim umi2_cut_read PRE_UMI1_TRA LINKER_FWD_TRA FLANK_TRA_SEQ [] no_outs =
     Inr (1, \<lparr>umi1 = ''AAAAAAA'', umi2 = ''TTT'', trimmed_seq = ''GGGCCC'', found_rc = False\<rparr>)"
  by code_simp

text \<open>
  C8 (the code departs from the claim). The read is the anchor and three more
  bases, so it ends inside UMI1. The extractor steps over the terminator without a
  bounds check and validates the bytes an earlier record left in the array: it
  returns 1 with UMI2 and the trimmed sequence taken from those bytes. In an array
  that ends at the terminator the same read is an access outside the array.
\<close>

theorem truncated_read_matches_stale_bytes:
  "c_str stale_read = PRE_UMI1_TRA @ ''AAA'' \<and>
   extract_umi_and_trim stale_read PRE_UMI1_TRA LINKER_FWD_TRA FLANK_TRA_SEQ [] no_outs =
     Inr (1, \<lparr>umi1 = ''AAA'', umi2 = ''TTTTTTT'', trimmed_seq = ''GGGCCC'', found_rc = False\<rparr>) \<and>
   extract_umi_and_trim (PRE_UMI1_TRA @ ''AAA'' @ [NUL]) PRE_UMI1_TRA LINKER_FWD_TRA
     FLANK_TRA_SEQ [] no_outs = Inl OutOfBounds"
  by code_simp

text \<open>
  A read that ends inside the linker, inside the flank or right before the terminal
  base: the comparison meets the terminator, and the return value is 0.
\<close>

lemma truncated_behind_umi_no_match:
  assumes "NUL \<in> set b" and "literal_ok pre_umi linker flank"
    and "spec_locate (c_str b) pre_umi = Some (m, rc)"
    and "rc \<longrightarrow> c_strlen b < MAX_SEQ_LEN"
    and "(linker_start m pre_umi \<le> c_strlen b \<and> c_strlen b < umi2_start m pre_umi linker) \<or>
         (flank_start m pre_umi linker \<le> c_strlen b \<and>
          c_strlen b < terminal_pos m pre_umi linker flank) \<or>
         c_strlen b = terminal_pos m pre_umi linker flank"
  shows "\<exists>o'. extract_umi_and_trim b pre_umi linker flank stk out = Inr (0, o')"
proof -
  let ?x = "searched (c_str b) rc"
  have lx: "length ?x = c_strlen b" by (simp add: length_searched c_strlen_def)
  have "wrong_linker ?x m pre_umi linker \<or> wrong_flank ?x m pre_umi linker flank \<or>
        wrong_terminal ?x m pre_umi linker flank"
    using assms(5)
  proof (elim disjE conjE)
    assume a: "linker_start m pre_umi \<le> c_strlen b" "c_strlen b < umi2_start m pre_umi linker"
    have "\<not> prefix linker (drop (linker_start m pre_umi) ?x)"
    proof
      assume "prefix linker (drop (linker_start m pre_umi) ?x)"
      from prefix_drop_length [OF this] a show False by (simp add: lx umi2_start_def)
    qed
    with a(1) show ?thesis by (simp add: wrong_linker_def lx)
  next
    assume a: "flank_start m pre_umi linker \<le> c_strlen b"
      "c_strlen b < terminal_pos m pre_umi linker flank"
    have "\<not> prefix flank (drop (flank_start m pre_umi linker) ?x)"
    proof
      assume "prefix flank (drop (flank_start m pre_umi linker) ?x)"
      from prefix_drop_length [OF this] a show False by (simp add: lx terminal_pos_def)
    qed
    with a(1) show ?thesis by (simp add: wrong_flank_def lx)
  next
    assume "c_strlen b = terminal_pos m pre_umi linker flank"
    then show ?thesis by (simp add: wrong_terminal_def lx)
  qed
  from extract_invalid [OF assms(1-4) this, of stk out] show ?thesis by blast
qed

section \<open>The pair classifier step by step\<close>

text \<open>
  The quality slice for a trimmed sequence that is the slice of the read at boundary
  \<open>bd\<close>, when read and quality string have the same length.
\<close>

lemma trim_quality_slice:
  assumes "NUL \<in> set q" and "length (c_str q) = length (c_str s)" and "bd \<le> length (c_str s)"
  shows "trim_quality s q (spec_slice (c_str s) bd rc) rc = Inr (spec_slice (c_str q) bd rc)"
proof -
  from cbuf_split [OF assms(1)] obtain r where r: "q = c_str q @ NUL # r" ..
  have n: "NUL \<notin> set (c_str q)" by (rule c_str_no_NUL)
  show ?thesis
  proof (cases rc)
    case True
    have "strncpy_str (c_str q @ NUL # r) 0 (length (c_str s) - bd) =
            Some (take (length (c_str s) - bd) (drop 0 (c_str q)))"
      by (rule strncpy_str_in_string [OF n]) simp
    then have "strncpy_str q 0 (length (c_str s) - bd) = Some (take (length (c_str s) - bd) (c_str q))"
      using r by simp
    with True assms(2) show ?thesis
      by (simp add: trim_quality_def spec_slice_def Let_def)
  next
    case False
    have "strcpy_str (c_str q @ NUL # r) bd = Some (drop bd (c_str q))"
      using assms(2,3) by (intro strcpy_str_in_string n) simp
    then have "strcpy_str q bd = Some (drop bd (c_str q))" using r by simp
    moreover have "int (length (c_str s)) - int (length (c_str s) - bd) = int bd"
      using assms(3) by simp
    ultimately show ?thesis using False
      by (simp add: trim_quality_def spec_slice_def Let_def c_strlen_def)
  qed
qed

lemma process_pair_tra_match:
  assumes "terminated_record r1" "terminated_record r2"
    and "extract_umi_and_trim (sequence r1) PRE_UMI1_TRA LINKER_FWD_TRA FLANK_TRA_SEQ k1
           ((bufs st)\<lparr>found_rc := False\<rparr>) = Inr (ret, o1)"
    and "ret \<noteq> 0"
    and "trim_quality (sequence r1) (quality r1) (trimmed_seq o1) (found_rc o1) = Inr tq"
  shows "process_pair k1 k2 st r1 r2 =
     Inr (if trimmed_seq o1 \<noteq> [] \<and> c_str (sequence r2) \<noteq> [] then
            st\<lparr>processed_pairs := processed_pairs st + 1, bufs := o1,
               extractor_calls := extractor_calls st @ [TRA], trimmed_qual := tq,
               tra_r1_out_fp := tra_r1_out_fp st @
                 [(header_mod (header r1) ''TRA'' o1, trimmed_seq o1, c_str (plus_line r1), tq)],
               tra_r2_out_fp := tra_r2_out_fp st @
                 [(header_mod (header r2) ''TRA'' o1, c_str (sequence r2),
                   c_str (plus_line r2), c_str (quality r2))],
               tra_pairs := tra_pairs st + 1\<rparr>
          else
            st\<lparr>processed_pairs := processed_pairs st + 1, bufs := o1,
               extractor_calls := extractor_calls st @ [TRA], trimmed_qual := tq\<rparr>)"
  using assms by (simp add: process_pair_def Let_def c_strlen_def)

lemma process_pair_trb_match:
  assumes "terminated_record r1" "terminated_record r2"
    and "extract_umi_and_trim (sequence r1) PRE_UMI1_TRA LINKER_FWD_TRA FLANK_TRA_SEQ k1
           ((bufs st)\<lparr>found_rc := False\<rparr>) = Inr (0, o1)"
    and "extract_umi_and_trim (sequence r2) PRE_UMI1_TRB LINKER_REV_TRB FLANK_TRB_SEQ k2
           (o1\<lparr>found_rc := False\<rparr>) = Inr (ret, o2)"
    and "ret \<noteq> 0"
    and "trim_quality (sequence r2) (quality r2) (trimmed_seq o2) (found_rc o2) = Inr tq"
  shows "process_pair k1 k2 st r1 r2 =
     Inr (if c_str (sequence r1) \<noteq> [] \<and> trimmed_seq o2 \<noteq> [] then
            st\<lparr>processed_pairs := processed_pairs st + 1, bufs := o2,
               extractor_calls := extractor_calls st @ [TRA, TRB], trimmed_qual := tq,
               trb_r1_out_fp := trb_r1_out_fp st @
                 [(header_mod (header r1) ''TRB'' o2, c_str (sequence r1),
                   c_str (plus_line r1), c_str (quality r1))],
               trb_r2_out_fp := trb_r2_out_fp st @
                 [(header_mod (header r2) ''TRB'' o2, trimmed_seq o2, c_str (plus_line r2), tq)],
               trb_pairs := trb_pairs st + 1\<rparr>
          else
            st\<lparr>processed_pairs := processed_pairs st + 1, bufs := o2,
               extractor_calls := extractor_calls st @ [TRA, TRB], trimmed_qual := tq\<rparr>)"
  using assms by (simp add: process_pair_def Let_def c_strlen_def)

lemma process_pair_no_match:
  assumes "terminated_record r1" "terminated_record r2"
    and "extract_umi_and_trim (sequence r1) PRE_UMI1_TRA LINKER_FWD_TRA FLANK_TRA_SEQ k1
           ((bufs st)\<lparr>found_rc := False\<rparr>) = Inr (0, o1)"
    and "extract_umi_and_trim (sequence r2) PRE_UMI1_TRB LINKER_REV_TRB FLANK_TRB_SEQ k2
           (o1\<lparr>found_rc := False\<rparr>) = Inr (0, o2)"
  shows "process_pair k1 k2 st r1 r2 =
     Inr (st\<lparr>processed_pairs := processed_pairs st + 1, bufs := o2,
               extractor_calls := extractor_calls st @ [TRA, TRB]\<rparr>)"
  using assms by (simp add: process_pair_def Let_def)

lemma fixture_records_terminated:
  "terminated_record tra_fwd_record" "terminated_record tra_rc_record"
  "terminated_record trb_fwd_record" "terminated_record plain_record"
  "terminated_record tra_only_record" "terminated_record trb_only_record"
  by code_simp+

lemma plain_record_no_tra:
  "extract_umi_and_trim (sequence plain_record) PRE_UMI1_TRA LINKER_FWD_TRA FLANK_TRA_SEQ []
     ((bufs init_state)\<lparr>found_rc := False\<rparr>) = Inr (0, no_outs)"
  by code_simp

section \<open>Claims about the pair classifier\<close>

text \<open>
  When the motif is located and validated inside the read, the quality string has the
  length of the sequence, and the pair is emitted, the record written for the
  trimmed read holds the slice of the sequence and the slice of the quality string at
  the same boundary and orientation (suffix from the boundary when forward, prefix
  up to it when reverse complement), so both have the same length. This holds for
  read 1 with the TRA motif and for read 2 with the TRB motif.
\<close>

lemma quality_slice_same_range:
  assumes "terminated_record r1" and "terminated_record r2"
  shows "(length (c_str (quality r1)) = length (c_str (sequence r1)) \<and>
          spec_locate (c_str (sequence r1)) PRE_UMI1_TRA = Some (m, rc) \<and>
          (rc \<longrightarrow> c_strlen (sequence r1) < MAX_SEQ_LEN) \<and>
          motif_validated (searched (c_str (sequence r1)) rc) m PRE_UMI1_TRA LINKER_FWD_TRA
            FLANK_TRA_SEQ \<and>
          bd = motif_end m PRE_UMI1_TRA LINKER_FWD_TRA FLANK_TRA_SEQ \<and>
          spec_slice (c_str (sequence r1)) bd rc \<noteq> [] \<and> c_str (sequence r2) \<noteq> [] \<longrightarrow>
            (\<exists>st' h. process_pair k1 k2 st r1 r2 = Inr st' \<and>
               tra_r1_out_fp st' = tra_r1_out_fp st @
                 [(h, spec_slice (c_str (sequence r1)) bd rc, c_str (plus_line r1),
                   spec_slice (c_str (quality r1)) bd rc)] \<and>
               length (spec_slice (c_str (quality r1)) bd rc) =
                 length (spec_slice (c_str (sequence r1)) bd rc))) \<and>
         (extract_umi_and_trim (sequence r1) PRE_UMI1_TRA LINKER_FWD_TRA FLANK_TRA_SEQ k1
            ((bufs st)\<lparr>found_rc := False\<rparr>) = Inr (0, o1) \<and>
          length (c_str (quality r2)) = length (c_str (sequence r2)) \<and>
          spec_locate (c_str (sequence r2)) PRE_UMI1_TRB = Some (m, rc) \<and>
          (rc \<longrightarrow> c_strlen (sequence r2) < MAX_SEQ_LEN) \<and>
          motif_validated (searched (c_str (sequence r2)) rc) m PRE_UMI1_TRB LINKER_REV_TRB
            FLANK_TRB_SEQ \<and>
          bd = motif_end m PRE_UMI1_TRB LINKER_REV_TRB FLANK_TRB_SEQ \<and>
          c_str (sequence r1) \<noteq> [] \<and> spec_slice (c_str (sequence r2)) bd rc \<noteq> [] \<longrightarrow>
            (\<exists>st' h. process_pair k1 k2 st r1 r2 = Inr st' \<and>
               trb_r2_out_fp st' = trb_r2_out_fp st @
                 [(h, spec_slice (c_str (sequence r2)) bd rc, c_str (plus_line r2),
                   spec_slice (c_str (quality r2)) bd rc)] \<and>
               length (spec_slice (c_str (quality r2)) bd rc) =
                 length (spec_slice (c_str (sequence r2)) bd rc)))"
proof (intro conjI impI)
  let ?s = "c_str (sequence r1)" and ?q = "c_str (quality r1)"
  assume a: "length ?q = length ?s \<and>
          spec_locate ?s PRE_UMI1_TRA = Some (m, rc) \<and>
          (rc \<longrightarrow> c_strlen (sequence r1) < MAX_SEQ_LEN) \<and>
          motif_validated (searched ?s rc) m PRE_UMI1_TRA LINKER_FWD_TRA FLANK_TRA_SEQ \<and>
          bd = motif_end m PRE_UMI1_TRA LINKER_FWD_TRA FLANK_TRA_SEQ \<and>
          spec_slice ?s bd rc \<noteq> [] \<and> c_str (sequence r2) \<noteq> []"
  then have len: "length ?q = length ?s"
    and loc: "spec_locate ?s PRE_UMI1_TRA = Some (m, rc)"
    and fit: "rc \<longrightarrow> c_strlen (sequence r1) < MAX_SEQ_LEN"
    and v: "motif_validated (searched ?s rc) m PRE_UMI1_TRA LINKER_FWD_TRA FLANK_TRA_SEQ"
    and bd: "bd = motif_end m PRE_UMI1_TRA LINKER_FWD_TRA FLANK_TRA_SEQ"
    and g: "spec_slice ?s bd rc \<noteq> []" "c_str (sequence r2) \<noteq> []" by blast+
  from assms(1) have t: "NUL \<in> set (sequence r1)" "NUL \<in> set (quality r1)"
    by (simp_all add: terminated_record_def)
  define o1 where "o1 = (bufs st)\<lparr>found_rc := False\<rparr>\<lparr>found_rc := rc,
      umi1 := take UMI1_LEN (drop (umi1_start m PRE_UMI1_TRA) (searched ?s rc)),
      umi2 := take UMI2_LEN (drop (umi2_start m PRE_UMI1_TRA LINKER_FWD_TRA) (searched ?s rc)),
      trimmed_seq := spec_slice ?s bd rc\<rparr>"
  have e: "extract_umi_and_trim (sequence r1) PRE_UMI1_TRA LINKER_FWD_TRA FLANK_TRA_SEQ k1
             ((bufs st)\<lparr>found_rc := False\<rparr>) = Inr (1, o1)"
    unfolding o1_def bd by (rule extract_validated [OF t(1) tra_literal_ok loc fit v])
  from validated_bounds(6) [OF v] have le: "bd \<le> length ?s"
    by (simp add: bd length_searched)
  have q: "trim_quality (sequence r1) (quality r1) (trimmed_seq o1) (found_rc o1) =
             Inr (spec_slice ?q bd rc)"
    using trim_quality_slice [OF t(2) len le, of rc] by (simp add: o1_def)
  have one: "(1::int) \<noteq> 0" by simp
  have l: "length (spec_slice ?q bd rc) = length (spec_slice ?s bd rc)"
    using len by (simp add: spec_slice_def)
  have ts: "trimmed_seq o1 = spec_slice ?s bd rc" by (simp add: o1_def)
  show "\<exists>st' h. process_pair k1 k2 st r1 r2 = Inr st' \<and>
               tra_r1_out_fp st' = tra_r1_out_fp st @
                 [(h, spec_slice ?s bd rc, c_str (plus_line r1), spec_slice ?q bd rc)] \<and>
               length (spec_slice ?q bd rc) = length (spec_slice ?s bd rc)"
    using g l by (simp add: process_pair_tra_match [OF assms e one q] ts)
next
  let ?s = "c_str (sequence r2)" and ?q = "c_str (quality r2)"
  assume a: "extract_umi_and_trim (sequence r1) PRE_UMI1_TRA LINKER_FWD_TRA FLANK_TRA_SEQ k1
            ((bufs st)\<lparr>found_rc := False\<rparr>) = Inr (0, o1) \<and>
          length ?q = length ?s \<and>
          spec_locate ?s PRE_UMI1_TRB = Some (m, rc) \<and>
          (rc \<longrightarrow> c_strlen (sequence r2) < MAX_SEQ_LEN) \<and>
          motif_validated (searched ?s rc) m PRE_UMI1_TRB LINKER_REV_TRB FLANK_TRB_SEQ \<and>
          bd = motif_end m PRE_UMI1_TRB LINKER_REV_TRB FLANK_TRB_SEQ \<and>
          c_str (sequence r1) \<noteq> [] \<and> spec_slice ?s bd rc \<noteq> []"
  then have e1: "extract_umi_and_trim (sequence r1) PRE_UMI1_TRA LINKER_FWD_TRA FLANK_TRA_SEQ k1
            ((bufs st)\<lparr>found_rc := False\<rparr>) = Inr (0, o1)"
    and len: "length ?q = length ?s"
    and loc: "spec_locate ?s PRE_UMI1_TRB = Some (m, rc)"
    and fit: "rc \<longrightarrow> c_strlen (sequence r2) < MAX_SEQ_LEN"
    and v: "motif_validated (searched ?s rc) m PRE_UMI1_TRB LINKER_REV_TRB FLANK_TRB_SEQ"
    and bd: "bd = motif_end m PRE_UMI1_TRB LINKER_REV_TRB FLANK_TRB_SEQ"
    and g: "c_str (sequence r1) \<noteq> []" "spec_slice ?s bd rc \<noteq> []" by blast+
  from assms(2) have t: "NUL \<in> set (sequence r2)" "NUL \<in> set (quality r2)"
    by (simp_all add: terminated_record_def)
  define o2 where "o2 = o1\<lparr>found_rc := False\<rparr>\<lparr>found_rc := rc,
      umi1 := take UMI1_LEN (drop (umi1_start m PRE_UMI1_TRB) (searched ?s rc)),
      umi2 := take UMI2_LEN (drop (umi2_start m PRE_UMI1_TRB LINKER_REV_TRB) (searched ?s rc)),
      trimmed_seq := spec_slice ?s bd rc\<rparr>"
  have e2: "extract_umi_and_trim (sequence r2) PRE_UMI1_TRB LINKER_REV_TRB FLANK_TRB_SEQ k2
             (o1\<lparr>found_rc := False\<rparr>) = Inr (1, o2)"
    unfolding o2_def bd by (rule extract_validated [OF t(1) trb_literal_ok loc fit v])
  from validated_bounds(6) [OF v] have le: "bd \<le> length ?s"
    by (simp add: bd length_searched)
  have q: "trim_quality (sequence r2) (quality r2) (trimmed_seq o2) (found_rc o2) =
             Inr (spec_slice ?q bd rc)"
    using trim_quality_slice [OF t(2) len le, of rc] by (simp add: o2_def)
  have one: "(1::int) \<noteq> 0" by simp
  have l: "length (spec_slice ?q bd rc) = length (spec_slice ?s bd rc)"
    using len by (simp add: spec_slice_def)
  have ts: "trimmed_seq o2 = spec_slice ?s bd rc" by (simp add: o2_def)
  show "\<exists>st' h. process_pair k1 k2 st r1 r2 = Inr st' \<and>
               trb_r2_out_fp st' = trb_r2_out_fp st @
                 [(h, spec_slice ?s bd rc, c_str (plus_line r2), spec_slice ?q bd rc)] \<and>
               length (spec_slice ?q bd rc) = length (spec_slice ?s bd rc)"
    using g l by (simp add: process_pair_trb_match [OF assms e1 e2 one q] ts)
qed

text \<open>
  The same at a forward TRA read, a reverse-complement TRA read and a forward TRB
  read.
\<close>

lemma quality_slice_same_range_at_reads:
  "terminated_record tra_fwd_record \<and> terminated_record tra_rc_record \<and>
   terminated_record plain_record \<and> terminated_record trb_fwd_record \<and>
   spec_locate (c_str (sequence tra_fwd_record)) PRE_UMI1_TRA = Some (0, False) \<and>
   (\<exists>st' h. process_pair [] [] init_state tra_fwd_record plain_record = Inr st' \<and>
      tra_r1_out_fp st' = [(h, ''GGGCCC'', ''+'', ''ABCDEF'')]) \<and>
   spec_locate (c_str (sequence tra_rc_record)) PRE_UMI1_TRA = Some (6, True) \<and>
   (\<exists>st' h. process_pair [] [] init_state tra_rc_record plain_record = Inr st' \<and>
      tra_r1_out_fp st' = [(h, ''CC'', ''+'', ''AB'')]) \<and>
   spec_locate (c_str (sequence trb_fwd_record)) PRE_UMI1_TRB = Some (0, False) \<and>
   (\<exists>st' h. process_pair [] [] init_state plain_record trb_fwd_record = Inr st' \<and>
      trb_r2_out_fp st' = [(h, ''ACGT'', ''+'', ''WXYZ'')])"
proof -
  note t1 = fixture_records_terminated(1) and t2 = fixture_records_terminated(2)
    and t3 = fixture_records_terminated(4) and t4 = fixture_records_terminated(3)
  have a: "length (c_str (quality tra_fwd_record)) = length (c_str (sequence tra_fwd_record))"
    "spec_locate (c_str (sequence tra_fwd_record)) PRE_UMI1_TRA = Some (0, False)"
    "motif_validated (searched (c_str (sequence tra_fwd_record)) False) 0 PRE_UMI1_TRA
       LINKER_FWD_TRA FLANK_TRA_SEQ"
    "motif_end 0 PRE_UMI1_TRA LINKER_FWD_TRA FLANK_TRA_SEQ = 80"
    "spec_slice (c_str (sequence tra_fwd_record)) 80 False = ''GGGCCC''"
    "spec_slice (c_str (quality tra_fwd_record)) 80 False = ''ABCDEF''"
    "c_str (plus_line tra_fwd_record) = ''+''"
    by code_simp+
  have b: "length (c_str (quality tra_rc_record)) = length (c_str (sequence tra_rc_record))"
    "spec_locate (c_str (sequence tra_rc_record)) PRE_UMI1_TRA = Some (6, True)"
    "c_strlen (sequence tra_rc_record) < MAX_SEQ_LEN"
    "motif_validated (searched (c_str (sequence tra_rc_record)) True) 6 PRE_UMI1_TRA
       LINKER_FWD_TRA FLANK_TRA_SEQ"
    "motif_end 6 PRE_UMI1_TRA LINKER_FWD_TRA FLANK_TRA_SEQ = 86"
    "spec_slice (c_str (sequence tra_rc_record)) 86 True = ''CC''"
    "spec_slice (c_str (quality tra_rc_record)) 86 True = ''AB''"
    "c_str (plus_line tra_rc_record) = ''+''"
    by code_simp+
  have c: "length (c_str (quality trb_fwd_record)) = length (c_str (sequence trb_fwd_record))"
    "spec_locate (c_str (sequence trb_fwd_record)) PRE_UMI1_TRB = Some (0, False)"
    "motif_validated (searched (c_str (sequence trb_fwd_record)) False) 0 PRE_UMI1_TRB
       LINKER_REV_TRB FLANK_TRB_SEQ"
    "motif_end 0 PRE_UMI1_TRB LINKER_REV_TRB FLANK_TRB_SEQ = 80"
    "spec_slice (c_str (sequence trb_fwd_record)) 80 False = ''ACGT''"
    "spec_slice (c_str (quality trb_fwd_record)) 80 False = ''WXYZ''"
    "c_str (plus_line trb_fwd_record) = ''+''"
    by code_simp+
  have p: "c_str (sequence plain_record) = ''ACGTACGT''" by code_simp
  have v: "tra_r1_out_fp init_state = []" "trb_r2_out_fp init_state = []"
    by (simp_all add: init_state_def)
  note q1 = quality_slice_same_range [OF t1 t3, where m = 0 and rc = False and bd = 80
      and ?k1.0 = "[]" and ?k2.0 = "[]" and st = init_state]
  note q2 = quality_slice_same_range [OF t2 t3, where m = 6 and rc = True and bd = 86
      and ?k1.0 = "[]" and ?k2.0 = "[]" and st = init_state]
  note q3 = quality_slice_same_range [OF t3 t4, where m = 0 and rc = False and bd = 80
      and ?k1.0 = "[]" and ?k2.0 = "[]" and st = init_state and ?o1.0 = no_outs]
  from q1 a p have c1: "\<exists>st' h. process_pair [] [] init_state tra_fwd_record plain_record = Inr st' \<and>
      tra_r1_out_fp st' = [(h, ''GGGCCC'', ''+'', ''ABCDEF'')]"
    by (simp add: v)
  from q2 b p have c2: "\<exists>st' h. process_pair [] [] init_state tra_rc_record plain_record = Inr st' \<and>
      tra_r1_out_fp st' = [(h, ''CC'', ''+'', ''AB'')]"
    by (simp add: v)
  from q3 c p plain_record_no_tra
  have c3: "\<exists>st' h. process_pair [] [] init_state plain_record trb_fwd_record = Inr st' \<and>
      trb_r2_out_fp st' = [(h, ''ACGT'', ''+'', ''WXYZ'')]"
    by (simp add: v)
  from c1 c2 c3 t1 t2 t3 t4 a(2) b(2) c(2) show ?thesis by blast
qed

text \<open>
  C2 (the code departs from the claim). Read 1 is the anchor and three more bases (23
  characters) with a quality string of 23 characters; its array still holds the
  bytes of a longer record. The extractor matches on those bytes and the pair is
  emitted: the sequence line written is GGGCCC, taken from offset 80 of the array,
  beyond the read, while the quality line is the suffix of the quality string from
  offset 17. The emitted quality is not the slice of the quality string over the
  range of the emitted sequence: the read holds ACAAAA in that range.
\<close>

theorem stale_match_quality_range:
  "c_str (sequence stale_record) = PRE_UMI1_TRA @ ''AAA'' \<and>
   c_str (quality stale_record) = ''ABCDEFGHIJKLMNOPQRSTUVW'' \<and>
   length (c_str (quality stale_record)) = length (c_str (sequence stale_record)) \<and>
   process_pair [] [] init_state stale_record plain_record =
     Inr \<lparr>processed_pairs = 1, tra_pairs = 1, trb_pairs = 0,
          tra_r1_out_fp = [(''@t/1 UMI:TRA:AAA_TTTTTTT'', ''GGGCCC'', ''+'', ''RSTUVW'')],
          tra_r2_out_fp = [(''@p UMI:TRA:AAA_TTTTTTT'', ''ACGTACGT'', ''+'', ''IIIIIIII'')],
          trb_r1_out_fp = [], trb_r2_out_fp = [],
          bufs = \<lparr>umi1 = ''AAA'', umi2 = ''TTTTTTT'', trimmed_seq = ''GGGCCC'',
                   found_rc = False\<rparr>,
          trimmed_qual = ''RSTUVW'', extractor_calls = [TRA]\<rparr> \<and>
   ''RSTUVW'' = drop 17 (c_str (quality stale_record)) \<and>
   drop 17 (c_str (sequence stale_record)) = ''ACAAAA''"
  by code_simp

text \<open>
  The record written for read 1 at that pair: the step completes, and the sequence
  line and the quality line are the ones above.
\<close>

theorem stale_match_quality_range_witness:
  "process_pair [] [] init_state stale_record plain_record \<noteq> Inl OutOfBounds \<and>
   (case process_pair [] [] init_state stale_record plain_record of
      Inl e \<Rightarrow> []
    | Inr st' \<Rightarrow> map (\<lambda>x. (fst (snd x), snd (snd (snd x)))) (tra_r1_out_fp st')) =
     [(''GGGCCC'', ''RSTUVW'')]"
proof -
  note e = stale_match_quality_range [THEN conjunct2, THEN conjunct2, THEN conjunct2,
      THEN conjunct1]
  show ?thesis unfolding e by simp
qed

text \<open>
  C6. When the TRA extraction on read 1 succeeds, the step calls the extractor once
  (for TRA), writes nothing to either TRB file, and the record it writes to the TRA
  file of read 2, if the pair is emitted, holds the sequence and quality of read 2
  as they were read.
\<close>

theorem tra_match_skips_trb:
  assumes "terminated_record r1" and "terminated_record r2"
    and "extract_umi_and_trim (sequence r1) PRE_UMI1_TRA LINKER_FWD_TRA FLANK_TRA_SEQ k1
           ((bufs st)\<lparr>found_rc := False\<rparr>) = Inr (ret, o1)"
    and "ret \<noteq> 0"
    and "trim_quality (sequence r1) (quality r1) (trimmed_seq o1) (found_rc o1) = Inr tq"
  shows "\<exists>st'. process_pair k1 k2 st r1 r2 = Inr st' \<and>
           extractor_calls st' = extractor_calls st @ [TRA] \<and>
           trb_r1_out_fp st' = trb_r1_out_fp st \<and>
           trb_r2_out_fp st' = trb_r2_out_fp st \<and>
           tra_r2_out_fp st' =
             (if trimmed_seq o1 \<noteq> [] \<and> c_str (sequence r2) \<noteq> [] then
                tra_r2_out_fp st @
                  [(header_mod (header r2) ''TRA'' o1, c_str (sequence r2),
                    c_str (plus_line r2), c_str (quality r2))]
              else tra_r2_out_fp st)"
  by (simp add: process_pair_tra_match [OF assms])

text \<open>
  C6 at the specification's end-to-end scenario.
\<close>

theorem tra_match_skips_trb_witness:
  "terminated_record tra_fwd_record \<and> terminated_record plain_record \<and>
   extract_umi_and_trim (sequence tra_fwd_record) PRE_UMI1_TRA LINKER_FWD_TRA FLANK_TRA_SEQ []
     ((bufs init_state)\<lparr>found_rc := False\<rparr>) =
     Inr (1, \<lparr>umi1 = ''AAAAAAA'', umi2 = ''TTTTTTT'', trimmed_seq = ''GGGCCC'',
              found_rc = False\<rparr>) \<and>
   trim_quality (sequence tra_fwd_record) (quality tra_fwd_record) ''GGGCCC'' False =
     Inr ''ABCDEF'' \<and>
   (\<exists>st'. process_pair [] [] init_state tra_fwd_record plain_record = Inr st' \<and>
      extractor_calls st' = [TRA] \<and> trb_r1_out_fp st' = [] \<and> trb_r2_out_fp st' = [] \<and>
      tra_r2_out_fp st' = [(''@p UMI:TRA:AAAAAAA_TTTTTTT'', ''ACGTACGT'', ''+'', ''IIIIIIII'')])"
proof -
  let ?o = "\<lparr>umi1 = ''AAAAAAA'', umi2 = ''TTTTTTT'', trimmed_seq = ''GGGCCC'', found_rc = False\<rparr>"
  note h1 = fixture_records_terminated(1) and h2 = fixture_records_terminated(4)
  have h3: "extract_umi_and_trim (sequence tra_fwd_record) PRE_UMI1_TRA LINKER_FWD_TRA
              FLANK_TRA_SEQ [] ((bufs init_state)\<lparr>found_rc := False\<rparr>) = Inr (1, ?o)"
    by code_simp
  have h4: "(1::int) \<noteq> 0" by simp
  have h5: "trim_quality (sequence tra_fwd_record) (quality tra_fwd_record) (trimmed_seq ?o)
              (found_rc ?o) = Inr ''ABCDEF''"
    by code_simp
  have v: "header_mod (header plain_record) ''TRA'' ?o = ''@p UMI:TRA:AAAAAAA_TTTTTTT''"
    "c_str (sequence plain_record) = ''ACGTACGT''" "c_str (plus_line plain_record) = ''+''"
    "c_str (quality plain_record) = ''IIIIIIII''"
    "extractor_calls init_state = []" "trb_r1_out_fp init_state = []"
    "trb_r2_out_fp init_state = []" "tra_r2_out_fp init_state = []"
    by code_simp+
  from tra_match_skips_trb [OF h1 h2 h3 h4 h5, of "[]"]
  have c: "\<exists>st'. process_pair [] [] init_state tra_fwd_record plain_record = Inr st' \<and>
      extractor_calls st' = [TRA] \<and> trb_r1_out_fp st' = [] \<and> trb_r2_out_fp st' = [] \<and>
      tra_r2_out_fp st' = [(''@p UMI:TRA:AAAAAAA_TTTTTTT'', ''ACGTACGT'', ''+'', ''IIIIIIII'')]"
    by (simp add: v)
  have h5': "trim_quality (sequence tra_fwd_record) (quality tra_fwd_record) ''GGGCCC'' False =
     Inr ''ABCDEF''" using h5 by simp
  from c h1 h2 h3 h5' show ?thesis by blast
qed

text \<open>
  C7. When a motif matches (TRA on read 1, or TRB on read 2 after TRA failed) but
  the trimmed sequence or the partner's sequence is empty, the step writes to none
  of the four files and leaves both subtotals as they were, while
  \<open>processed_pairs\<close> grows by one. Every record any step writes has a non-empty
  sequence line.
\<close>

theorem empty_output_guard:
  assumes "terminated_record r1" and "terminated_record r2"
  shows "(extract_umi_and_trim (sequence r1) PRE_UMI1_TRA LINKER_FWD_TRA FLANK_TRA_SEQ k1
            ((bufs st)\<lparr>found_rc := False\<rparr>) = Inr (ret, o1) \<and> ret \<noteq> 0 \<and>
          trim_quality (sequence r1) (quality r1) (trimmed_seq o1) (found_rc o1) = Inr tq \<and>
          (trimmed_seq o1 = [] \<or> c_str (sequence r2) = []) \<longrightarrow>
            (\<exists>st'. process_pair k1 k2 st r1 r2 = Inr st' \<and>
               tra_r1_out_fp st' = tra_r1_out_fp st \<and> tra_r2_out_fp st' = tra_r2_out_fp st \<and>
               trb_r1_out_fp st' = trb_r1_out_fp st \<and> trb_r2_out_fp st' = trb_r2_out_fp st \<and>
               tra_pairs st' = tra_pairs st \<and> trb_pairs st' = trb_pairs st \<and>
               processed_pairs st' = processed_pairs st + 1)) \<and>
         (extract_umi_and_trim (sequence r1) PRE_UMI1_TRA LINKER_FWD_TRA FLANK_TRA_SEQ k1
            ((bufs st)\<lparr>found_rc := False\<rparr>) = Inr (0, o1) \<and>
          extract_umi_and_trim (sequence r2) PRE_UMI1_TRB LINKER_REV_TRB FLANK_TRB_SEQ k2
            (o1\<lparr>found_rc := False\<rparr>) = Inr (ret, o2) \<and> ret \<noteq> 0 \<and>
          trim_quality (sequence r2) (quality r2) (trimmed_seq o2) (found_rc o2) = Inr tq \<and>
          (trimmed_seq o2 = [] \<or> c_str (sequence r1) = []) \<longrightarrow>
            (\<exists>st'. process_pair k1 k2 st r1 r2 = Inr st' \<and>
               tra_r1_out_fp st' = tra_r1_out_fp st \<and> tra_r2_out_fp st' = tra_r2_out_fp st \<and>
               trb_r1_out_fp st' = trb_r1_out_fp st \<and> trb_r2_out_fp st' = trb_r2_out_fp st \<and>
               tra_pairs st' = tra_pairs st \<and> trb_pairs st' = trb_pairs st \<and>
               processed_pairs st' = processed_pairs st + 1)) \<and>
         (\<forall>st'. process_pair k1 k2 st r1 r2 = Inr st' \<longrightarrow>
            emitted_nonempty (tra_r1_out_fp st) (tra_r1_out_fp st') \<and>
            emitted_nonempty (tra_r2_out_fp st) (tra_r2_out_fp st') \<and>
            emitted_nonempty (trb_r1_out_fp st) (trb_r1_out_fp st') \<and>
            emitted_nonempty (trb_r2_out_fp st) (trb_r2_out_fp st'))"
proof (intro conjI impI allI)
  assume a: "extract_umi_and_trim (sequence r1) PRE_UMI1_TRA LINKER_FWD_TRA FLANK_TRA_SEQ k1
            ((bufs st)\<lparr>found_rc := False\<rparr>) = Inr (ret, o1) \<and> ret \<noteq> 0 \<and>
          trim_quality (sequence r1) (quality r1) (trimmed_seq o1) (found_rc o1) = Inr tq \<and>
          (trimmed_seq o1 = [] \<or> c_str (sequence r2) = [])"
  then have e: "extract_umi_and_trim (sequence r1) PRE_UMI1_TRA LINKER_FWD_TRA FLANK_TRA_SEQ k1
            ((bufs st)\<lparr>found_rc := False\<rparr>) = Inr (ret, o1)" and r: "ret \<noteq> 0"
    and q: "trim_quality (sequence r1) (quality r1) (trimmed_seq o1) (found_rc o1) = Inr tq"
    and g: "trimmed_seq o1 = [] \<or> c_str (sequence r2) = []" by simp_all
  from g show "\<exists>st'. process_pair k1 k2 st r1 r2 = Inr st' \<and>
               tra_r1_out_fp st' = tra_r1_out_fp st \<and> tra_r2_out_fp st' = tra_r2_out_fp st \<and>
               trb_r1_out_fp st' = trb_r1_out_fp st \<and> trb_r2_out_fp st' = trb_r2_out_fp st \<and>
               tra_pairs st' = tra_pairs st \<and> trb_pairs st' = trb_pairs st \<and>
               processed_pairs st' = processed_pairs st + 1"
    by (auto simp add: process_pair_tra_match [OF assms e r q])
next
  assume a: "extract_umi_and_trim (sequence r1) PRE_UMI1_TRA LINKER_FWD_TRA FLANK_TRA_SEQ k1
            ((bufs st)\<lparr>found_rc := False\<rparr>) = Inr (0, o1) \<and>
          extract_umi_and_trim (sequence r2) PRE_UMI1_TRB LINKER_REV_TRB FLANK_TRB_SEQ k2
            (o1\<lparr>found_rc := False\<rparr>) = Inr (ret, o2) \<and> ret \<noteq> 0 \<and>
          trim_quality (sequence r2) (quality r2) (trimmed_seq o2) (found_rc o2) = Inr tq \<and>
          (trimmed_seq o2 = [] \<or> c_str (sequence r1) = [])"
  then have e1: "extract_umi_and_trim (sequence r1) PRE_UMI1_TRA LINKER_FWD_TRA FLANK_TRA_SEQ k1
            ((bufs st)\<lparr>found_rc := False\<rparr>) = Inr (0, o1)"
    and e2: "extract_umi_and_trim (sequence r2) PRE_UMI1_TRB LINKER_REV_TRB FLANK_TRB_SEQ k2
            (o1\<lparr>found_rc := False\<rparr>) = Inr (ret, o2)" and r: "ret \<noteq> 0"
    and q: "trim_quality (sequence r2) (quality r2) (trimmed_seq o2) (found_rc o2) = Inr tq"
    and g: "trimmed_seq o2 = [] \<or> c_str (sequence r1) = []" by simp_all
  from g show "\<exists>st'. process_pair k1 k2 st r1 r2 = Inr st' \<and>
               tra_r1_out_fp st' = tra_r1_out_fp st \<and> tra_r2_out_fp st' = tra_r2_out_fp st \<and>
               trb_r1_out_fp st' = trb_r1_out_fp st \<and> trb_r2_out_fp st' = trb_r2_out_fp st \<and>
               tra_pairs st' = tra_pairs st \<and> trb_pairs st' = trb_pairs st \<and>
               processed_pairs st' = processed_pairs st + 1"
    by (auto simp add: process_pair_trb_match [OF assms e1 e2 r q])
next
  fix st' assume p: "process_pair k1 k2 st r1 r2 = Inr st'"
  then have "emitted_nonempty (tra_r1_out_fp st) (tra_r1_out_fp st') \<and>
            emitted_nonempty (tra_r2_out_fp st) (tra_r2_out_fp st') \<and>
            emitted_nonempty (trb_r1_out_fp st) (trb_r1_out_fp st') \<and>
            emitted_nonempty (trb_r2_out_fp st) (trb_r2_out_fp st')"
    by (auto simp add: process_pair_def Let_def c_strlen_def emitted_nonempty_def
          split: if_splits sum.splits prod.splits)
  then show "emitted_nonempty (tra_r1_out_fp st) (tra_r1_out_fp st')"
    "emitted_nonempty (tra_r2_out_fp st) (tra_r2_out_fp st')"
    "emitted_nonempty (trb_r1_out_fp st) (trb_r1_out_fp st')"
    "emitted_nonempty (trb_r2_out_fp st) (trb_r2_out_fp st')" by simp_all
qed

text \<open>
  C7 at a TRA read and at a TRB read that end with the composite.
\<close>

theorem empty_output_guard_witness:
  "terminated_record tra_only_record \<and> terminated_record plain_record \<and>
   terminated_record trb_only_record \<and>
   extract_umi_and_trim (sequence tra_only_record) PRE_UMI1_TRA LINKER_FWD_TRA FLANK_TRA_SEQ []
     ((bufs init_state)\<lparr>found_rc := False\<rparr>) =
     Inr (1, \<lparr>umi1 = ''AAAAAAA'', umi2 = ''TTTTTTT'', trimmed_seq = [], found_rc = False\<rparr>) \<and>
   (\<exists>st'. process_pair [] [] init_state tra_only_record plain_record = Inr st' \<and>
      tra_r1_out_fp st' = [] \<and> tra_r2_out_fp st' = [] \<and>
      trb_r1_out_fp st' = [] \<and> trb_r2_out_fp st' = [] \<and>
      tra_pairs st' = 0 \<and> trb_pairs st' = 0 \<and> processed_pairs st' = 1) \<and>
   extract_umi_and_trim (sequence plain_record) PRE_UMI1_TRA LINKER_FWD_TRA FLANK_TRA_SEQ []
     ((bufs init_state)\<lparr>found_rc := False\<rparr>) = Inr (0, no_outs) \<and>
   extract_umi_and_trim (sequence trb_only_record) PRE_UMI1_TRB LINKER_REV_TRB FLANK_TRB_SEQ []
     (no_outs\<lparr>found_rc := False\<rparr>) =
     Inr (1, \<lparr>umi1 = ''CCCCCCC'', umi2 = ''GGGGGGG'', trimmed_seq = [], found_rc = False\<rparr>) \<and>
   (\<exists>st'. process_pair [] [] init_state plain_record trb_only_record = Inr st' \<and>
      tra_r1_out_fp st' = [] \<and> tra_r2_out_fp st' = [] \<and>
      trb_r1_out_fp st' = [] \<and> trb_r2_out_fp st' = [] \<and>
      tra_pairs st' = 0 \<and> trb_pairs st' = 0 \<and> processed_pairs st' = 1) \<and>
   terminated_record tra_fwd_record \<and>
   (\<exists>st'. process_pair [] [] init_state tra_fwd_record plain_record = Inr st' \<and>
      tra_r1_out_fp st' \<noteq> [] \<and> emitted_nonempty [] (tra_r1_out_fp st'))"
proof -
  let ?o1 = "\<lparr>umi1 = ''AAAAAAA'', umi2 = ''TTTTTTT'', trimmed_seq = [], found_rc = False\<rparr>"
  let ?o2 = "\<lparr>umi1 = ''CCCCCCC'', umi2 = ''GGGGGGG'', trimmed_seq = [], found_rc = False\<rparr>"
  note t1 = fixture_records_terminated(5) and t2 = fixture_records_terminated(4)
    and t3 = fixture_records_terminated(6)
  have a1: "extract_umi_and_trim (sequence tra_only_record) PRE_UMI1_TRA LINKER_FWD_TRA
              FLANK_TRA_SEQ [] ((bufs init_state)\<lparr>found_rc := False\<rparr>) = Inr (1, ?o1)"
    by code_simp
  have a2: "trim_quality (sequence tra_only_record) (quality tra_only_record) (trimmed_seq ?o1)
              (found_rc ?o1) = Inr []"
    by code_simp
  have b2: "extract_umi_and_trim (sequence trb_only_record) PRE_UMI1_TRB LINKER_REV_TRB
              FLANK_TRB_SEQ [] (no_outs\<lparr>found_rc := False\<rparr>) = Inr (1, ?o2)"
    by code_simp
  have b3: "trim_quality (sequence trb_only_record) (quality trb_only_record) (trimmed_seq ?o2)
              (found_rc ?o2) = Inr []"
    by code_simp
  have v: "tra_r1_out_fp init_state = []" "tra_r2_out_fp init_state = []"
    "trb_r1_out_fp init_state = []" "trb_r2_out_fp init_state = []"
    "tra_pairs init_state = 0" "trb_pairs init_state = 0" "processed_pairs init_state = 0"
    by (simp_all add: init_state_def)
  note g1 = empty_output_guard [OF t1 t2, where ?k1.0 = "[]" and ?k2.0 = "[]" and st = init_state
      and ret = 1 and ?o1.0 = ?o1 and tq = "[]"]
  note g2 = empty_output_guard [OF t2 t3, where ?k1.0 = "[]" and ?k2.0 = "[]" and st = init_state
      and ret = 1 and ?o1.0 = no_outs and ?o2.0 = ?o2 and tq = "[]"]
  from g1 a1 a2
  have c1: "\<exists>st'. process_pair [] [] init_state tra_only_record plain_record = Inr st' \<and>
      tra_r1_out_fp st' = [] \<and> tra_r2_out_fp st' = [] \<and>
      trb_r1_out_fp st' = [] \<and> trb_r2_out_fp st' = [] \<and>
      tra_pairs st' = 0 \<and> trb_pairs st' = 0 \<and> processed_pairs st' = 1"
    by (simp add: v)
  note t4 = fixture_records_terminated(1)
  note g3 = empty_output_guard [OF t4 t2, where ?k1.0 = "[]" and ?k2.0 = "[]"
      and st = init_state]
  have "case process_pair [] [] init_state tra_fwd_record plain_record of
          Inl e \<Rightarrow> False | Inr st' \<Rightarrow> tra_r1_out_fp st' \<noteq> []"
    by code_simp
  then have "\<exists>st'. process_pair [] [] init_state tra_fwd_record plain_record = Inr st' \<and>
      tra_r1_out_fp st' \<noteq> []"
    by (cases "process_pair [] [] init_state tra_fwd_record plain_record") simp_all
  with g3 have c3: "\<exists>st'. process_pair [] [] init_state tra_fwd_record plain_record = Inr st' \<and>
      tra_r1_out_fp st' \<noteq> [] \<and> emitted_nonempty [] (tra_r1_out_fp st')"
    by (auto simp add: v)
  from g2 plain_record_no_tra b2 b3
  have c2: "\<exists>st'. process_pair [] [] init_state plain_record trb_only_record = Inr st' \<and>
      tra_r1_out_fp st' = [] \<and> tra_r2_out_fp st' = [] \<and>
      trb_r1_out_fp st' = [] \<and> trb_r2_out_fp st' = [] \<and>
      tra_pairs st' = 0 \<and> trb_pairs st' = 0 \<and> processed_pairs st' = 1"
    by (simp add: v)
  from c1 c2 c3 t1 t2 t3 t4 a1 b2 plain_record_no_tra show ?thesis by blast
qed

end
